theory Spec2Isabelle
  imports Complex_Main
begin

section \<open>JavaScript numbers\<close>

text \<open>
  The engine computes on JavaScript numbers.  A number is modelled as a finite real or
  one of the three special values the code itself produces and tests for
  (\<open>Number.POSITIVE_INFINITY\<close>, \<open>isFinite\<close>, \<open>x || 0\<close>).  Arithmetic on finite values
  is exact: rounding, overflow to infinity and the sign of zero are not modelled.  On the
  special values every operation follows IEEE 754 as JavaScript exposes it.  Rounding to
  a double is modelled apart, in the section on double-precision arithmetic, where a
  property depends on it.
\<close>

datatype jsnum = Fin real | PInf | NInf | NaN

fun jneg :: "jsnum \<Rightarrow> jsnum" where
  "jneg (Fin a) = Fin (- a)"
| "jneg PInf = NInf"
| "jneg NInf = PInf"
| "jneg NaN = NaN"

fun jadd :: "jsnum \<Rightarrow> jsnum \<Rightarrow> jsnum" where
  "jadd (Fin a) (Fin b) = Fin (a + b)"
| "jadd NaN _ = NaN"
| "jadd _ NaN = NaN"
| "jadd PInf NInf = NaN"
| "jadd NInf PInf = NaN"
| "jadd PInf _ = PInf"
| "jadd _ PInf = PInf"
| "jadd NInf _ = NInf"
| "jadd _ NInf = NInf"

definition jsub :: "jsnum \<Rightarrow> jsnum \<Rightarrow> jsnum" where
  "jsub a b = jadd a (jneg b)"

fun jmul :: "jsnum \<Rightarrow> jsnum \<Rightarrow> jsnum" where
  "jmul (Fin a) (Fin b) = Fin (a * b)"
| "jmul NaN _ = NaN"
| "jmul _ NaN = NaN"
| "jmul (Fin a) PInf = (if a = 0 then NaN else if 0 < a then PInf else NInf)"
| "jmul (Fin a) NInf = (if a = 0 then NaN else if 0 < a then NInf else PInf)"
| "jmul PInf (Fin b) = (if b = 0 then NaN else if 0 < b then PInf else NInf)"
| "jmul NInf (Fin b) = (if b = 0 then NaN else if 0 < b then NInf else PInf)"
| "jmul PInf PInf = PInf"
| "jmul PInf NInf = NInf"
| "jmul NInf PInf = NInf"
| "jmul NInf NInf = PInf"

text \<open>Division: a zero divisor is taken as \<open>+0\<close>.\<close>

fun jdiv :: "jsnum \<Rightarrow> jsnum \<Rightarrow> jsnum" where
  "jdiv (Fin a) (Fin b) =
     (if b = 0 then (if a = 0 then NaN else if 0 < a then PInf else NInf)
      else Fin (a / b))"
| "jdiv NaN _ = NaN"
| "jdiv _ NaN = NaN"
| "jdiv (Fin a) PInf = Fin 0"
| "jdiv (Fin a) NInf = Fin 0"
| "jdiv PInf (Fin b) = (if 0 \<le> b then PInf else NInf)"
| "jdiv NInf (Fin b) = (if 0 \<le> b then NInf else PInf)"
| "jdiv PInf PInf = NaN"
| "jdiv PInf NInf = NaN"
| "jdiv NInf PInf = NaN"
| "jdiv NInf NInf = NaN"

text \<open>\<open>Math.max\<close> and \<open>Math.min\<close> of two arguments: \<open>NaN\<close> if either is.\<close>

fun jmax :: "jsnum \<Rightarrow> jsnum \<Rightarrow> jsnum" where
  "jmax (Fin a) (Fin b) = Fin (max a b)"
| "jmax NaN _ = NaN"
| "jmax _ NaN = NaN"
| "jmax PInf _ = PInf"
| "jmax _ PInf = PInf"
| "jmax NInf b = b"
| "jmax a NInf = a"

fun jmin :: "jsnum \<Rightarrow> jsnum \<Rightarrow> jsnum" where
  "jmin (Fin a) (Fin b) = Fin (min a b)"
| "jmin NaN _ = NaN"
| "jmin _ NaN = NaN"
| "jmin NInf _ = NInf"
| "jmin _ NInf = NInf"
| "jmin PInf b = b"
| "jmin a PInf = a"

fun jabs :: "jsnum \<Rightarrow> jsnum" where
  "jabs (Fin a) = Fin \<bar>a\<bar>"
| "jabs PInf = PInf"
| "jabs NInf = PInf"
| "jabs NaN = NaN"

text \<open>The comparisons \<open><\<close> and \<open><=\<close>: false whenever an operand is \<open>NaN\<close>.\<close>

fun jlt :: "jsnum \<Rightarrow> jsnum \<Rightarrow> bool" where
  "jlt (Fin a) (Fin b) = (a < b)"
| "jlt NaN _ = False"
| "jlt _ NaN = False"
| "jlt _ NInf = False"
| "jlt NInf _ = True"
| "jlt PInf _ = False"
| "jlt _ PInf = True"

fun jle :: "jsnum \<Rightarrow> jsnum \<Rightarrow> bool" where
  "jle (Fin a) (Fin b) = (a \<le> b)"
| "jle NaN _ = False"
| "jle _ NaN = False"
| "jle NInf _ = True"
| "jle _ PInf = True"
| "jle PInf _ = False"
| "jle _ NInf = False"

text \<open>\<open>a > b\<close> is \<open>b < a\<close>.\<close>

definition jgt :: "jsnum \<Rightarrow> jsnum \<Rightarrow> bool" where
  "jgt a b = jlt b a"

fun isFinite :: "jsnum \<Rightarrow> bool" where
  "isFinite (Fin a) = True"
| "isFinite _ = False"

text \<open>Truthiness of a number (\<open>if (x)\<close>, \<open>x || y\<close>): zero and \<open>NaN\<close> are falsy.\<close>

fun truthy :: "jsnum \<Rightarrow> bool" where
  "truthy (Fin a) = (a \<noteq> 0)"
| "truthy NaN = False"
| "truthy _ = True"

definition jor :: "jsnum \<Rightarrow> jsnum \<Rightarrow> jsnum" where
  "jor a b = (if truthy a then a else b)"

text \<open>
  \<open>Math.pow(x, n)\<close> for an integer exponent \<open>n\<close>: the exponent zero gives 1 for every
  base, also \<open>NaN\<close>; a zero base with a negative exponent gives \<open>Infinity\<close>.
\<close>

fun jpow :: "jsnum \<Rightarrow> int \<Rightarrow> jsnum" where
  "jpow (Fin x) n =
     (if n = 0 then Fin 1
      else if 0 < n then Fin (x ^ nat n)
      else if x = 0 then PInf
      else Fin (1 / x ^ nat (- n)))"
| "jpow PInf n = (if n = 0 then Fin 1 else if 0 < n then PInf else Fin 0)"
| "jpow NInf n =
     (if n = 0 then Fin 1
      else if 0 < n then (if even n then PInf else NInf)
      else Fin 0)"
| "jpow NaN n = (if n = 0 then Fin 1 else NaN)"

text \<open>An integer of the program (a year count) read as a number.\<close>

definition jint :: "int \<Rightarrow> jsnum" where
  "jint k = Fin (of_int k)"

section \<open>Time-value primitives (\<open>src/lib/finance.ts\<close>, \<open>pmt\<close> and \<open>pv\<close>)\<close>

text \<open>
  The number of periods is an integer in every call of the repository.  The trailing
  parameters \<open>fv\<close> and \<open>type\<close> default to 0 in the source; the callers below pass them.
\<close>

definition pmt :: "jsnum \<Rightarrow> int \<Rightarrow> jsnum \<Rightarrow> jsnum \<Rightarrow> jsnum \<Rightarrow> jsnum" where
  "pmt rt nper pv0 fv type =
     (if nper \<le> 0 then Fin 0
      else if rt = Fin 0 then jdiv (jadd pv0 fv) (jint nper)
      else
        let pow = jpow (jadd (Fin 1) rt) nper
        in jdiv (jmul rt (jadd (jmul pv0 pow) fv))
                (jmul (jadd (Fin 1) (jmul rt type)) (jsub pow (Fin 1))))"

definition pv :: "jsnum \<Rightarrow> int \<Rightarrow> jsnum \<Rightarrow> jsnum \<Rightarrow> jsnum \<Rightarrow> jsnum" where
  "pv rt nper pmtAmt fv type =
     (if nper \<le> 0 then Fin 0
      else if rt = Fin 0 then jadd (jmul pmtAmt (jint nper)) fv
      else
        let factor = jdiv (jsub (Fin 1) (jpow (jadd (Fin 1) rt) (- nper))) rt
        in jadd (jmul (jmul pmtAmt (jadd (Fin 1) (jmul rt type))) factor)
                (jmul fv (jpow (jadd (Fin 1) rt) (- nper))))"

section \<open>Double-precision arithmetic\<close>

text \<open>
  A JavaScript number is an IEEE 754 binary64 value.  \<open>toDouble\<close> rounds a real to the
  nearest such value, ties to the even significand: a value of the binade
  \<open>2 ^ e \<le> |x| < 2 ^ (e + 1)\<close> goes to the nearest multiple of \<open>2 ^ (e - 52)\<close>, a value
  below \<open>2 ^ -1022\<close> to the nearest multiple of \<open>2 ^ -1074\<close>, and a rounded magnitude of
  \<open>2 ^ 1024\<close> or more is an infinity.  The sign of a zero is not modelled.
\<close>

definition roundEven :: "real \<Rightarrow> int" where
  "roundEven q =
     (let f = \<lfloor>q\<rfloor>; d = q - of_int f
      in if d < 1 / 2 then f else if 1 / 2 < d then f + 1 else if even f then f else f + 1)"

definition binade :: "real \<Rightarrow> int" where
  "binade x = max \<lfloor>log 2 \<bar>x\<bar>\<rfloor> (- 1022)"

definition toDouble :: "real \<Rightarrow> jsnum" where
  "toDouble x =
     (if x = 0 then Fin 0
      else
        let e = binade x;
            y = of_int (roundEven (x * 2 powi (52 - e))) * 2 powi (e - 52)
        in if 2 ^ 1024 \<le> y then PInf else if y \<le> - (2 ^ 1024) then NInf else Fin y)"

fun dbl :: "jsnum \<Rightarrow> jsnum" where
  "dbl (Fin x) = toDouble x"
| "dbl v = v"

text \<open>
  The operators \<open>+\<close>, \<open>-\<close>, \<open>*\<close> and \<open>/\<close> on doubles: the exact result, rounded.
  \<open>Math.pow\<close> is taken as correctly rounded (an implementation may be off in the last
  place; at the base 1 every implementation returns 1).
\<close>

definition dadd :: "jsnum \<Rightarrow> jsnum \<Rightarrow> jsnum" where
  "dadd a b = dbl (jadd a b)"

definition dsub :: "jsnum \<Rightarrow> jsnum \<Rightarrow> jsnum" where
  "dsub a b = dbl (jsub a b)"

definition dmul :: "jsnum \<Rightarrow> jsnum \<Rightarrow> jsnum" where
  "dmul a b = dbl (jmul a b)"

definition ddiv :: "jsnum \<Rightarrow> jsnum \<Rightarrow> jsnum" where
  "ddiv a b = dbl (jdiv a b)"

definition dpow :: "jsnum \<Rightarrow> int \<Rightarrow> jsnum" where
  "dpow a n = dbl (jpow a n)"

text \<open>\<open>pmt\<close> and \<open>pv\<close> of \<open>src/lib/finance.ts\<close>, every operation rounded as the machine does.\<close>

definition pmtD :: "jsnum \<Rightarrow> int \<Rightarrow> jsnum \<Rightarrow> jsnum \<Rightarrow> jsnum \<Rightarrow> jsnum" where
  "pmtD rt nper pv0 fv type =
     (if nper \<le> 0 then Fin 0
      else if rt = Fin 0 then ddiv (dadd pv0 fv) (dbl (jint nper))
      else
        let pow = dpow (dadd (Fin 1) rt) nper
        in ddiv (dmul rt (dadd (dmul pv0 pow) fv))
                (dmul (dadd (Fin 1) (dmul rt type)) (dsub pow (Fin 1))))"

definition pvD :: "jsnum \<Rightarrow> int \<Rightarrow> jsnum \<Rightarrow> jsnum \<Rightarrow> jsnum \<Rightarrow> jsnum" where
  "pvD rt nper pmtAmt fv type =
     (if nper \<le> 0 then Fin 0
      else if rt = Fin 0 then dadd (dmul pmtAmt (dbl (jint nper))) fv
      else
        let factor = ddiv (dsub (Fin 1) (dpow (dadd (Fin 1) rt) (- nper))) rt
        in dadd (dmul (dmul pmtAmt (dadd (Fin 1) (dmul rt type))) factor)
                (dmul fv (dpow (dadd (Fin 1) rt) (- nper))))"

section \<open>Data model (\<open>src/lib/finance.ts\<close>)\<close>

datatype PaymentType = Annuity | EqualPrincipal

text \<open>
  \<open>termYears\<close> and \<open>graceYears\<close> are integers: the data model declares them so and the
  page floors both before it stores them, hence \<open>Math.floor\<close> is the identity on them.
\<close>

record Inputs =
  localRevenuePAD :: jsnum
  balancingFundPerimbangan :: jsnum
  otherLegalRevenue :: jsnum
  financingReceipts :: jsnum
  financingExpenditures :: jsnum
  personnelExpenses :: jsnum
  goodsServicesExpenses :: jsnum
  capitalExpenditures :: jsnum
  revGrowth :: jsnum
  opexGrowth :: jsnum
  rate :: jsnum
  termYears :: int
  paymentType :: PaymentType
  reserveRatio :: jsnum
  minDSCR :: jsnum
  initReserve :: jsnum
  graceYears :: int

record Row =
  year :: int
  begBal :: jsnum
  interest :: jsnum
  principal :: jsnum
  debtService :: jsnum
  revenue :: jsnum
  opex :: jsnum
  availForDS :: jsnum
  dscr :: "jsnum option"
  reserveTarget :: jsnum
  reserveAlloc :: jsnum
  reserveBeg :: jsnum
  reserveEnd :: jsnum
  surplus :: jsnum

record CapacityResult =
  NOI :: jsnum
  totalRevenue :: jsnum
  nettFinancing :: jsnum
  totalOpex :: jsnum
  maxDebtRevenueRule :: jsnum
  maxAnnualDS :: jsnum
  dscrPV :: jsnum
  allowedDebt :: jsnum
  binding :: string

section \<open>Capacity calculator (\<open>src/lib/finance.ts\<close>)\<close>

definition getTotalRevenue :: "Inputs \<Rightarrow> jsnum" where
  "getTotalRevenue i =
     jadd (jadd (localRevenuePAD i) (balancingFundPerimbangan i)) (otherLegalRevenue i)"

definition getNettFinancing :: "Inputs \<Rightarrow> jsnum" where
  "getNettFinancing i = jsub (financingReceipts i) (financingExpenditures i)"

definition getTotalOpex :: "Inputs \<Rightarrow> jsnum" where
  "getTotalOpex i =
     jadd (jadd (personnelExpenses i) (goodsServicesExpenses i)) (capitalExpenditures i)"

definition computeCapacity :: "Inputs \<Rightarrow> CapacityResult" where
  "computeCapacity i =
     (let totalRevenue = getTotalRevenue i;
          nettFinancing = getNettFinancing i;
          totalOpex = getTotalOpex i;
          NOI = jmax (jsub (jadd totalRevenue nettFinancing) totalOpex) (Fin 0);
          maxDebtRevenueRule = jmul (Fin 0.75) totalRevenue;
          maxAnnualDS = jdiv NOI (minDSCR i);
          amortYears = max (termYears i - graceYears i) 0;
          pvAnnuityAfterGrace =
            (if 0 < amortYears
             then jdiv (pv (rate i) amortYears maxAnnualDS (Fin 0) (Fin 0))
                       (jpow (jadd (Fin 1) (rate i)) (graceYears i))
             else Fin 0);
          capFromInterestOnly =
            (if jgt (rate i) (Fin 0) then jdiv maxAnnualDS (rate i) else PInf);
          dscrPV = jmin (jor pvAnnuityAfterGrace (Fin 0)) capFromInterestOnly;
          allowedDebt = jmax (Fin 0) (jmin maxDebtRevenueRule dscrPV);
          binding =
            (if jlt (jabs (jsub allowedDebt maxDebtRevenueRule)) (Fin 0.000001)
             then ''75% of prior revenue'' else ''DSCR constraint'')
      in \<lparr> NOI = NOI, totalRevenue = totalRevenue, nettFinancing = nettFinancing,
           totalOpex = totalOpex, maxDebtRevenueRule = maxDebtRevenueRule,
           maxAnnualDS = maxAnnualDS, dscrPV = dscrPV, allowedDebt = allowedDebt,
           binding = binding \<rparr>)"

section \<open>Schedule builder (\<open>src/lib/finance.ts\<close>)\<close>

text \<open>
  One pass of the loop body: the row of year \<open>y\<close> from the loop variables \<open>prevBeg\<close>,
  \<open>revenue\<close>, \<open>opex\<close> and \<open>reserveBeg\<close> (here \<open>pb\<close>, \<open>rv\<close>, \<open>ox\<close>, \<open>rb\<close>).
\<close>

definition scheduleRow ::
  "Inputs \<Rightarrow> int \<Rightarrow> int \<Rightarrow> jsnum \<Rightarrow> jsnum \<Rightarrow> int \<Rightarrow> jsnum \<Rightarrow> jsnum \<Rightarrow> jsnum \<Rightarrow> jsnum \<Rightarrow> Row" where
  "scheduleRow i n amortYears annuityPmt epPrincipal y pb rv ox rb =
     (let inGrace = (y \<le> graceYears i);
          interest = (if y \<le> termYears i then jmul pb (rate i) else Fin 0);
          principal =
            (if \<not> inGrace \<and> y \<le> termYears i
             then (if paymentType i = Annuity
                   then jmax (Fin 0) (jmin pb (jsub annuityPmt interest))
                   else jmax (Fin 0) (jmin pb epPrincipal))
             else Fin 0);
          debtService = (if inGrace then interest else jadd interest principal);
          nextYearDS =
            (if y < n then
               (let nextBeg = jmax (jsub pb principal) (Fin 0);
                    nextInterest = jmul nextBeg (rate i);
                    nextPrincipal =
                      (if y + 1 \<le> graceYears i then Fin 0
                       else if paymentType i = Annuity \<and> 0 < amortYears
                         then jmax (Fin 0) (jmin nextBeg (jsub annuityPmt nextInterest))
                       else if 0 < amortYears
                         then jmax (Fin 0) (jmin nextBeg epPrincipal)
                       else Fin 0)
                in if y + 1 \<le> graceYears i then nextInterest
                   else jadd nextInterest nextPrincipal)
             else Fin 0);
          reserveTarget = nextYearDS;
          reserveAlloc = jmul (jmax (jsub reserveTarget rb) (Fin 0)) (reserveRatio i);
          reserveEnd = jadd rb reserveAlloc;
          availForDS = jsub rv ox;
          dscr = (if jgt debtService (Fin 0) then Some (jdiv availForDS debtService) else None);
          surplus = jsub (jsub (jsub rv ox) debtService) reserveAlloc
      in \<lparr> year = y, begBal = pb, interest = interest, principal = principal,
           debtService = debtService, revenue = rv, opex = ox, availForDS = availForDS,
           dscr = dscr, reserveTarget = reserveTarget, reserveAlloc = reserveAlloc,
           reserveBeg = rb, reserveEnd = reserveEnd, surplus = surplus \<rparr>)"

text \<open>The loop \<open>for (let y = 1; y <= n; y++)\<close>; the rows come out in push order.\<close>

function scheduleLoop ::
  "Inputs \<Rightarrow> int \<Rightarrow> int \<Rightarrow> jsnum \<Rightarrow> jsnum \<Rightarrow> int \<Rightarrow> jsnum \<Rightarrow> jsnum \<Rightarrow> jsnum \<Rightarrow> jsnum \<Rightarrow> Row list" where
  "scheduleLoop i n amortYears annuityPmt epPrincipal y pb rv ox rb =
     (if y \<le> n then
        scheduleRow i n amortYears annuityPmt epPrincipal y pb rv ox rb #
        scheduleLoop i n amortYears annuityPmt epPrincipal (y + 1)
          (jmax (jsub pb (principal (scheduleRow i n amortYears annuityPmt epPrincipal y pb rv ox rb))) (Fin 0))
          (jmul rv (jadd (Fin 1) (revGrowth i)))
          (jmul ox (jadd (Fin 1) (opexGrowth i)))
          (reserveEnd (scheduleRow i n amortYears annuityPmt epPrincipal y pb rv ox rb))
      else [])"
  by pat_completeness auto
termination
  by (relation "measure (\<lambda>(i, n, a, ap, ep, y, r). nat (n + 1 - y))") auto

declare scheduleLoop.simps [simp del]

definition buildSchedule :: "Inputs \<Rightarrow> jsnum \<Rightarrow> Row list" where
  "buildSchedule i allowedDebt0 =
     (let n = max 0 (termYears i);
          amortYears = max 0 (termYears i - graceYears i);
          annuityPmt =
            (if paymentType i = Annuity \<and> 0 < amortYears
             then pmt (rate i) amortYears allowedDebt0 (Fin 0) (Fin 0) else Fin 0);
          epPrincipal =
            (if paymentType i = EqualPrincipal \<and> 0 < amortYears
             then jdiv allowedDebt0 (jint amortYears) else Fin 0);
          totalRevenue = getTotalRevenue i;
          nettFinancing = getNettFinancing i;
          totalOpex = getTotalOpex i
      in scheduleLoop i n amortYears annuityPmt epPrincipal 1 allowedDebt0
           (jmul (jadd totalRevenue nettFinancing) (jadd (Fin 1) (revGrowth i)))
           (jmul totalOpex (jadd (Fin 1) (opexGrowth i)))
           (initReserve i))"

section \<open>Minimum-DSCR reducer (the same text in both engine files)\<close>

fun minDSCR_loop :: "jsnum \<Rightarrow> Row list \<Rightarrow> jsnum" where
  "minDSCR_loop m [] = m"
| "minDSCR_loop m (r # rs) =
     minDSCR_loop
       (if jgt (debtService r) (Fin 0)
        then (case dscr r of None \<Rightarrow> m | Some d \<Rightarrow> jmin m d) else m) rs"

definition minDSCR_rows :: "Row list \<Rightarrow> jsnum" where
  "minDSCR_rows rows =
     (let m = minDSCR_loop PInf rows in if isFinite m then m else Fin 0)"

section \<open>The engine with debt types (\<open>src/unnamed/part_002\<close>)\<close>

text \<open>
  The second engine file declares the same names as the first; its records, fields and
  functions carry the suffix \<open>V\<close> here.  \<open>pmt\<close>, \<open>pv\<close>, the row type and the reducer are
  the same text in both files.  An optional field (\<open>personnelExpenses?: number\<close>) is an
  option: \<open>None\<close> is \<open>undefined\<close>.
\<close>

datatype DebtType = Bond | PtsmiOther

record InputsV =
  localRevenuePADV :: jsnum
  balancingFundPerimbanganV :: jsnum
  otherTransferCentralV :: jsnum
  transferSharingTaxV :: jsnum
  otherFinancialAidV :: jsnum
  otherLegalRevenueV :: jsnum
  financingReceiptsV :: jsnum
  financingExpendituresV :: jsnum
  operatingExpensesV :: jsnum
  personnelExpensesV :: "jsnum option"
  goodsServicesExpensesV :: "jsnum option"
  capitalExpendituresV :: "jsnum option"
  revGrowthV :: jsnum
  opexGrowthV :: jsnum
  rateV :: jsnum
  termYearsV :: int
  paymentTypeV :: PaymentType
  debtTypeV :: DebtType
  allowedDebtV :: jsnum
  finalDebtTakenV :: jsnum
  reserveRatioV :: jsnum
  minDSCRV :: jsnum
  initReserveV :: jsnum
  graceYearsV :: int

record CapacityResultV =
  NOIV :: jsnum
  totalRevenueV :: jsnum
  nettFinancingV :: jsnum
  totalOpexV :: jsnum
  maxDebtRevenueRuleV :: jsnum
  maxAnnualDSV :: jsnum
  dscrPVV :: jsnum
  calculatedMaxDebt :: jsnum
  bindingV :: string

text \<open>\<open>x || 0\<close> on an optional number: \<open>undefined\<close>, zero and \<open>NaN\<close> give the default.\<close>

fun jorOpt :: "jsnum option \<Rightarrow> jsnum \<Rightarrow> jsnum" where
  "jorOpt None b = b"
| "jorOpt (Some a) b = jor a b"

definition getTotalRevenueV :: "InputsV \<Rightarrow> jsnum" where
  "getTotalRevenueV i =
     jadd (jadd (jadd (jadd (jadd (localRevenuePADV i) (balancingFundPerimbanganV i))
       (otherTransferCentralV i)) (transferSharingTaxV i)) (otherFinancialAidV i))
       (otherLegalRevenueV i)"

definition getNettFinancingV :: "InputsV \<Rightarrow> jsnum" where
  "getNettFinancingV i = jsub (financingReceiptsV i) (financingExpendituresV i)"

definition getTotalOpexV :: "InputsV \<Rightarrow> jsnum" where
  "getTotalOpexV i =
     (if truthy (operatingExpensesV i) then operatingExpensesV i
      else jadd (jadd (jorOpt (personnelExpensesV i) (Fin 0))
                      (jorOpt (goodsServicesExpensesV i) (Fin 0)))
                (jorOpt (capitalExpendituresV i) (Fin 0)))"

text \<open>
  \<open>getTotalOpex\<close> on the object it receives at run time, where the type annotations are
  erased and the property \<open>operatingExpenses\<close> may be absent as well: \<open>if (undefined)\<close>
  takes the same branch as \<open>if (0)\<close>.
\<close>

fun getTotalOpexAt ::
  "jsnum option \<Rightarrow> jsnum option \<Rightarrow> jsnum option \<Rightarrow> jsnum option \<Rightarrow> jsnum" where
  "getTotalOpexAt (Some v) pe gs ce =
     (if truthy v then v
      else jadd (jadd (jorOpt pe (Fin 0)) (jorOpt gs (Fin 0))) (jorOpt ce (Fin 0)))"
| "getTotalOpexAt None pe gs ce =
     jadd (jadd (jorOpt pe (Fin 0)) (jorOpt gs (Fin 0))) (jorOpt ce (Fin 0))"

definition computeCapacityV :: "InputsV \<Rightarrow> CapacityResultV" where
  "computeCapacityV i =
     (let totalRevenue = getTotalRevenueV i;
          nettFinancing = getNettFinancingV i;
          totalOpex = getTotalOpexV i;
          NOI = jmax (jsub (jadd totalRevenue nettFinancing) totalOpex) (Fin 0);
          maxDebtRevenueRule = jmul (Fin 0.75) totalRevenue;
          maxAnnualDS = jdiv NOI (minDSCRV i);
          amortYears = max (termYearsV i - graceYearsV i) 0;
          pvAnnuityAfterGrace =
            (if 0 < amortYears
             then jdiv (pv (rateV i) amortYears maxAnnualDS (Fin 0) (Fin 0))
                       (jpow (jadd (Fin 1) (rateV i)) (graceYearsV i))
             else Fin 0);
          capFromInterestOnly =
            (if jgt (rateV i) (Fin 0) then jdiv maxAnnualDS (rateV i) else PInf);
          dscrPV = jmin (jor pvAnnuityAfterGrace (Fin 0)) capFromInterestOnly;
          allowedDebt = jmax (Fin 0) (jmin maxDebtRevenueRule dscrPV);
          binding =
            (if jlt (jabs (jsub allowedDebt maxDebtRevenueRule)) (Fin 0.000001)
             then ''75% of prior revenue'' else ''DSCR constraint'')
      in \<lparr> NOIV = NOI, totalRevenueV = totalRevenue, nettFinancingV = nettFinancing,
           totalOpexV = totalOpex, maxDebtRevenueRuleV = maxDebtRevenueRule,
           maxAnnualDSV = maxAnnualDS, dscrPVV = dscrPV, calculatedMaxDebt = allowedDebt,
           bindingV = binding \<rparr>)"

definition scheduleRowV ::
  "InputsV \<Rightarrow> int \<Rightarrow> int \<Rightarrow> jsnum \<Rightarrow> jsnum \<Rightarrow> jsnum \<Rightarrow> int \<Rightarrow> jsnum \<Rightarrow> jsnum \<Rightarrow> jsnum \<Rightarrow> jsnum \<Rightarrow> Row" where
  "scheduleRowV i n amortYears actualDebt annuityPmt epPrincipal y pb rv ox rb =
     (let inGrace = (y \<le> graceYearsV i);
          interest =
            (if y \<le> termYearsV i
             then (if debtTypeV i = Bond then jmul actualDebt (rateV i)
                   else jmul pb (rateV i))
             else Fin 0);
          principal =
            (if \<not> inGrace \<and> y \<le> termYearsV i
             then (if debtTypeV i = Bond
                   then jmax (Fin 0) (jmin pb (jdiv actualDebt (jint (termYearsV i))))
                   else if paymentTypeV i = Annuity
                     then jmax (Fin 0) (jmin pb (jsub annuityPmt interest))
                     else jmax (Fin 0) (jmin pb epPrincipal))
             else Fin 0);
          debtService = (if inGrace then interest else jadd interest principal);
          nextYearDS =
            (if y < n then
               (let nextBeg = jmax (jsub pb principal) (Fin 0);
                    nextInterest =
                      (if debtTypeV i = Bond then jmul actualDebt (rateV i)
                       else jmul nextBeg (rateV i));
                    nextPrincipal =
                      (if y + 1 \<le> graceYearsV i then Fin 0
                       else if debtTypeV i = Bond
                         then jmax (Fin 0) (jmin nextBeg (jdiv actualDebt (jint (termYearsV i))))
                       else if paymentTypeV i = Annuity \<and> 0 < amortYears
                         then jmax (Fin 0) (jmin nextBeg (jsub annuityPmt nextInterest))
                       else if 0 < amortYears
                         then jmax (Fin 0) (jmin nextBeg epPrincipal)
                       else Fin 0)
                in if y + 1 \<le> graceYearsV i then nextInterest
                   else jadd nextInterest nextPrincipal)
             else Fin 0);
          reserveTarget = nextYearDS;
          reserveAlloc = jmul (jmax (jsub reserveTarget rb) (Fin 0)) (reserveRatioV i);
          reserveEnd = jadd rb reserveAlloc;
          availForDS = jsub rv ox;
          dscr = (if jgt debtService (Fin 0) then Some (jdiv availForDS debtService) else None);
          surplus = jsub (jsub (jsub rv ox) debtService) reserveAlloc
      in \<lparr> year = y, begBal = pb, interest = interest, principal = principal,
           debtService = debtService, revenue = rv, opex = ox, availForDS = availForDS,
           dscr = dscr, reserveTarget = reserveTarget, reserveAlloc = reserveAlloc,
           reserveBeg = rb, reserveEnd = reserveEnd, surplus = surplus \<rparr>)"

function scheduleLoopV ::
  "InputsV \<Rightarrow> int \<Rightarrow> int \<Rightarrow> jsnum \<Rightarrow> jsnum \<Rightarrow> jsnum \<Rightarrow> int \<Rightarrow> jsnum \<Rightarrow> jsnum \<Rightarrow> jsnum \<Rightarrow> jsnum \<Rightarrow> Row list" where
  "scheduleLoopV i n amortYears actualDebt annuityPmt epPrincipal y pb rv ox rb =
     (if y \<le> n then
        scheduleRowV i n amortYears actualDebt annuityPmt epPrincipal y pb rv ox rb #
        scheduleLoopV i n amortYears actualDebt annuityPmt epPrincipal (y + 1)
          (jmax (jsub pb (principal (scheduleRowV i n amortYears actualDebt annuityPmt epPrincipal y pb rv ox rb))) (Fin 0))
          (jmul rv (jadd (Fin 1) (revGrowthV i)))
          (jmul ox (jadd (Fin 1) (opexGrowthV i)))
          (reserveEnd (scheduleRowV i n amortYears actualDebt annuityPmt epPrincipal y pb rv ox rb))
      else [])"
  by pat_completeness auto
termination
  by (relation "measure (\<lambda>(i, n, a, ad, ap, ep, y, r). nat (n + 1 - y))") auto

declare scheduleLoopV.simps [simp del]

definition buildScheduleV :: "InputsV \<Rightarrow> Row list" where
  "buildScheduleV i =
     (let n = max 0 (termYearsV i);
          amortYears = max 0 (termYearsV i - graceYearsV i);
          actualDebt = jmin (finalDebtTakenV i) (allowedDebtV i);
          annuityPmt =
            (if paymentTypeV i = Annuity \<and> 0 < amortYears
             then pmt (rateV i) amortYears actualDebt (Fin 0) (Fin 0) else Fin 0);
          epPrincipal =
            (if paymentTypeV i = EqualPrincipal \<and> 0 < amortYears
             then jdiv actualDebt (jint amortYears) else Fin 0);
          totalRevenue = getTotalRevenueV i;
          nettFinancing = getNettFinancingV i;
          totalOpex = getTotalOpexV i
      in scheduleLoopV i n amortYears actualDebt annuityPmt epPrincipal 1 actualDebt
           (jmul (jadd totalRevenue nettFinancing) (jadd (Fin 1) (revGrowthV i)))
           (jmul totalOpex (jadd (Fin 1) (opexGrowthV i)))
           (initReserveV i))"

section \<open>The capacity formulas as the specification words them\<close>

text \<open>
  Steps 4 to 12 of the specification's capacity algorithm, on the three totals and the
  loan parameters, for comparison with \<open>computeCapacity\<close> and \<open>computeCapacityV\<close>.
\<close>

definition spec_NOI :: "jsnum \<Rightarrow> jsnum \<Rightarrow> jsnum \<Rightarrow> jsnum" where
  "spec_NOI tr nf tox = jmax (jsub (jadd tr nf) tox) (Fin 0)"

definition spec_pvAfterGrace :: "jsnum \<Rightarrow> jsnum \<Rightarrow> int \<Rightarrow> int \<Rightarrow> jsnum" where
  "spec_pvAfterGrace mads rt term grace =
     (if 0 < max (term - grace) 0
      then jdiv (pv rt (max (term - grace) 0) mads (Fin 0) (Fin 0))
                (jpow (jadd (Fin 1) rt) grace)
      else Fin 0)"

definition spec_capInterestOnly :: "jsnum \<Rightarrow> jsnum \<Rightarrow> jsnum" where
  "spec_capInterestOnly mads rt = (if jgt rt (Fin 0) then jdiv mads rt else PInf)"

definition spec_allowedDebt ::
  "jsnum \<Rightarrow> jsnum \<Rightarrow> jsnum \<Rightarrow> jsnum \<Rightarrow> jsnum \<Rightarrow> int \<Rightarrow> int \<Rightarrow> jsnum" where
  "spec_allowedDebt tr nf tox mdscr rt term grace =
     (let mads = jdiv (spec_NOI tr nf tox) mdscr;
          dscrCeiling = jmin (spec_pvAfterGrace mads rt term grace) (spec_capInterestOnly mads rt)
      in jmax (Fin 0) (jmin (jmul (Fin 0.75) tr) dscrCeiling))"

text \<open>
  ``Equal within a 1e-6 relative tolerance'': the difference is below one millionth of
  the magnitude of the reference value.
\<close>

definition spec_relClose :: "jsnum \<Rightarrow> jsnum \<Rightarrow> bool" where
  "spec_relClose a m = jlt (jabs (jsub a m)) (jmul (Fin 0.000001) (jabs m))"

text \<open>
  The ceiling as the code computes it: the specification's formula with the guard
  \<open>pvAnnuityAfterGrace || 0\<close>, which turns an undefined present value into 0.
\<close>

definition guarded_allowedDebt ::
  "jsnum \<Rightarrow> jsnum \<Rightarrow> jsnum \<Rightarrow> jsnum \<Rightarrow> jsnum \<Rightarrow> int \<Rightarrow> int \<Rightarrow> jsnum" where
  "guarded_allowedDebt tr nf tox mdscr rt term grace =
     (let mads = jdiv (spec_NOI tr nf tox) mdscr;
          dscrCeiling = jmin (jor (spec_pvAfterGrace mads rt term grace) (Fin 0))
                             (spec_capInterestOnly mads rt)
      in jmax (Fin 0) (jmin (jmul (Fin 0.75) tr) dscrCeiling))"

text \<open>``Missing components counted as 0''.\<close>

definition componentOrZero :: "jsnum option \<Rightarrow> jsnum" where
  "componentOrZero c = (case c of None \<Rightarrow> Fin 0 | Some v \<Rightarrow> v)"

text \<open>The rows the reducer looks at.\<close>

definition qualifies :: "Row \<Rightarrow> bool" where
  "qualifies r = (jgt (debtService r) (Fin 0) \<and> dscr r \<noteq> None)"

text \<open>Inputs whose money fields, rate and coverage floor are finite numbers.\<close>

definition finiteCapacityInputs :: "Inputs \<Rightarrow> bool" where
  "finiteCapacityInputs i =
     (isFinite (localRevenuePAD i) \<and> isFinite (balancingFundPerimbangan i) \<and>
      isFinite (otherLegalRevenue i) \<and> isFinite (financingReceipts i) \<and>
      isFinite (financingExpenditures i) \<and> isFinite (personnelExpenses i) \<and>
      isFinite (goodsServicesExpenses i) \<and> isFinite (capitalExpenditures i) \<and>
      isFinite (rate i) \<and> isFinite (minDSCR i))"

text \<open>
  The ceiling on finite values, as a function of the statutory ceiling \<open>t\<close> and the
  maximum annual debt service \<open>x\<close>; \<open>c\<close> is the present-value factor of the rate, the
  term and the grace period.
\<close>

definition ceilingOf :: "real \<Rightarrow> real \<Rightarrow> real \<Rightarrow> real \<Rightarrow> real" where
  "ceilingOf c r t x =
     (if 0 < r then max 0 (min t (min (c * x) (x / r))) else max 0 (min t (c * x)))"

section \<open>Concrete inputs\<close>

text \<open>
  The specification's scenario: revenue 1,000,000,000,000, operating expense
  800,000,000,000, rate 8 percent, ten years of which two are grace, coverage floor 2.5.
\<close>

definition scenario :: Inputs where
  "scenario = \<lparr> localRevenuePAD = Fin 1000000000000, balancingFundPerimbangan = Fin 0,
     otherLegalRevenue = Fin 0, financingReceipts = Fin 0, financingExpenditures = Fin 0,
     personnelExpenses = Fin 800000000000, goodsServicesExpenses = Fin 0,
     capitalExpenditures = Fin 0, revGrowth = Fin 0.05, opexGrowth = Fin 0.03,
     rate = Fin 0.08, termYears = 10, paymentType = Annuity, reserveRatio = Fin 1,
     minDSCR = Fin 2.5, initReserve = Fin 0, graceYears = 2 \<rparr>"

definition scenarioV :: InputsV where
  "scenarioV = \<lparr> localRevenuePADV = Fin 1000000000000, balancingFundPerimbanganV = Fin 0,
     otherTransferCentralV = Fin 0, transferSharingTaxV = Fin 0, otherFinancialAidV = Fin 0,
     otherLegalRevenueV = Fin 0, financingReceiptsV = Fin 0, financingExpendituresV = Fin 0,
     operatingExpensesV = Fin 800000000000, personnelExpensesV = None,
     goodsServicesExpensesV = None, capitalExpendituresV = None,
     revGrowthV = Fin 0.05, opexGrowthV = Fin 0.03, rateV = Fin 0.08, termYearsV = 10,
     paymentTypeV = EqualPrincipal, debtTypeV = Bond, allowedDebtV = Fin 3000000000000,
     finalDebtTakenV = Fin 1000000000000, reserveRatioV = Fin 1, minDSCRV = Fin 2.5,
     initReserveV = Fin 0, graceYearsV = 2 \<rparr>"

text \<open>The scenario at a rate of minus 100 percent.\<close>

definition capacity_cex :: Inputs where
  "capacity_cex = scenario \<lparr> rate := Fin (- 1) \<rparr>"

text \<open>
  A one-year loan at rate 0 and coverage floor 1: the coverage ceiling is the net
  operating income 2,999,999, one unit below the statutory ceiling 3,000,000.
\<close>

definition binding_cex :: Inputs where
  "binding_cex = \<lparr> localRevenuePAD = Fin 4000000, balancingFundPerimbangan = Fin 0,
     otherLegalRevenue = Fin 0, financingReceipts = Fin 0, financingExpenditures = Fin 0,
     personnelExpenses = Fin 1000001, goodsServicesExpenses = Fin 0,
     capitalExpenditures = Fin 0, revGrowth = Fin 0, opexGrowth = Fin 0, rate = Fin 0,
     termYears = 1, paymentType = Annuity, reserveRatio = Fin 1, minDSCR = Fin 1,
     initReserve = Fin 0, graceYears = 0 \<rparr>"


definition deficit :: Inputs where
  "deficit = scenario \<lparr> personnelExpenses := Fin 1200000000000 \<rparr>"

text \<open>An input with a zero override and a partial breakdown, and three rows for the reducer.\<close>

definition breakdownV :: InputsV where
  "breakdownV = scenarioV \<lparr> operatingExpensesV := Fin 0, personnelExpensesV := Some (Fin 5),
     capitalExpendituresV := Some (Fin 7) \<rparr>"

definition zeroRow :: Row where
  "zeroRow = \<lparr> year = 0, begBal = Fin 0, interest = Fin 0, principal = Fin 0,
     debtService = Fin 0, revenue = Fin 0, opex = Fin 0, availForDS = Fin 0, dscr = None,
     reserveTarget = Fin 0, reserveAlloc = Fin 0, reserveBeg = Fin 0, reserveEnd = Fin 0,
     surplus = Fin 0 \<rparr>"

definition threeRows :: "Row list" where
  "threeRows =
     [zeroRow \<lparr> year := 1, debtService := Fin 10, dscr := Some (Fin 3) \<rparr>,
      zeroRow \<lparr> year := 2 \<rparr>,
      zeroRow \<lparr> year := 3, debtService := Fin 10, dscr := Some (Fin 2) \<rparr>]"

text \<open>
  A zero override with a breakdown whose first component is \<open>NaN\<close>; the scenario repaid
  in equal principal amounts; rows with a debt service of 10 and the coverage ratios
  \<open>+Infinity\<close>, \<open>-Infinity\<close> and \<open>NaN\<close>.
\<close>

definition nanBreakdownV :: InputsV where
  "nanBreakdownV = scenarioV \<lparr> operatingExpensesV := Fin 0, personnelExpensesV := Some NaN,
     goodsServicesExpensesV := Some (Fin 1), capitalExpendituresV := Some (Fin 5) \<rparr>"


definition infiniteRow :: Row where
  "infiniteRow = zeroRow \<lparr> year := 1, debtService := Fin 10, dscr := Some PInf \<rparr>"

definition negInfiniteRow :: Row where
  "negInfiniteRow = zeroRow \<lparr> year := 1, debtService := Fin 10, dscr := Some NInf \<rparr>"

definition nanRow :: Row where
  "nanRow = zeroRow \<lparr> year := 1, debtService := Fin 10, dscr := Some NaN \<rparr>"

section \<open>Properties of the numbers\<close>

lemma isFiniteE: "isFinite a \<Longrightarrow> (\<And>x. a = Fin x \<Longrightarrow> P) \<Longrightarrow> P"
  by (cases a) auto

lemma jle_trans: "jle a b \<Longrightarrow> jle b c \<Longrightarrow> jle a c"
  by (cases a; cases b; cases c) auto

lemma jle_refl: "a \<noteq> NaN \<Longrightarrow> jle a a"
  by (cases a) auto

lemma jle_not_jlt: "jle a b \<Longrightarrow> \<not> jlt b a"
  by (cases a; cases b) auto

lemma jmax_zero_not_negative: "\<not> jlt (jmax a (Fin 0)) (Fin 0)"
  by (cases a) auto

lemma jor_zero: "a \<noteq> NaN \<Longrightarrow> jor a (Fin 0) = a"
  by (cases a) (auto simp: jor_def)

lemma jorOpt_zero: "jorOpt c (Fin 0) = (if c = Some NaN then Fin 0 else componentOrZero c)"
  by (cases c) (auto simp: componentOrZero_def jor_zero, simp add: jor_def)

text \<open>\<open>Math.min\<close> of two numbers that are neither \<open>NaN\<close> nor \<open>-Infinity\<close>.\<close>

lemma jmin_good:
  "m \<noteq> NaN \<Longrightarrow> m \<noteq> NInf \<Longrightarrow> d \<noteq> NaN \<Longrightarrow> d \<noteq> NInf \<Longrightarrow>
   jmin m d \<noteq> NaN \<and> jmin m d \<noteq> NInf \<and> jle (jmin m d) m \<and> jle (jmin m d) d \<and>
   (jmin m d = m \<or> jmin m d = d) \<and> (isFinite m \<or> isFinite d \<longrightarrow> isFinite (jmin m d))"
  by (cases m; cases d) (auto simp: min_def)

lemma jpow_Fin_nonzero: "x \<noteq> 0 \<Longrightarrow> \<exists>q. jpow (Fin x) n = Fin q \<and> q \<noteq> 0"
  by simp

lemma successively_nth:
  "successively P xs \<Longrightarrow> Suc k < length xs \<Longrightarrow> P (xs ! k) (xs ! Suc k)"
proof (induction xs arbitrary: k)
  case Nil
  then show ?case by simp
next
  case (Cons x xs)
  then show ?case
    by (cases k) (auto simp: successively_Cons hd_conv_nth)
qed

section \<open>The annuity primitives\<close>

subsection \<open>Over exact arithmetic\<close>


subsection \<open>Rounding to a double\<close>

lemma roundEven_of_int [simp]: "roundEven (of_int m) = m"
  by (simp add: roundEven_def)

lemma binade_eq:
  assumes "x \<noteq> 0" "2 powr (of_int e) \<le> \<bar>x\<bar>" "\<bar>x\<bar> < 2 powr (of_int e + 1)" "- 1022 \<le> e"
  shows "binade x = e"
proof -
  have "\<lfloor>log 2 \<bar>x\<bar>\<rfloor> = e"
    using assms floor_log_eq_powr_iff [of "\<bar>x\<bar>" 2 e] by simp
  then show ?thesis using assms(4) by (simp add: binade_def)
qed


text \<open>
  A number of a normal binade that is a whole multiple of the spacing of the doubles
  there is a double: rounding returns it.
\<close>

lemma toDouble_exact:
  assumes "x \<noteq> 0" "2 powr (of_int e) \<le> \<bar>x\<bar>" "\<bar>x\<bar> < 2 powr (of_int e + 1)" "- 1022 \<le> e"
    "e \<le> 1023" "x * 2 powi (52 - e) = of_int m"
  shows "toDouble x = Fin x"
proof -
  have b: "binade x = e" by (rule binade_eq [OF assms(1-4)])
  have "of_int m * 2 powi (e - 52) = x * (2 powi (52 - e) * 2 powi (e - 52))"
    using assms(6) by simp
  also have "2 powi (52 - e) * 2 powi (e - 52) = (1::real)"
    by (simp flip: power_int_add)
  finally have y: "of_int m * 2 powi (e - 52) = x" by simp
  have "\<bar>x\<bar> < 2 powr 1024"
  proof -
    have "(2::real) powr (of_int e + 1) \<le> 2 powr 1024"
      using assms(5) by (intro powr_mono) auto
    then show ?thesis using assms(3) by simp
  qed
  then have "\<bar>x\<bar> < 2 ^ 1024"
    by simp
  then have "\<not> 2 ^ 1024 \<le> x" "\<not> x \<le> - (2 ^ 1024)" by auto
  then show ?thesis
    using assms(1) by (simp add: toDouble_def b assms(6) y Let_def)
qed

lemma toDouble_values:
  "toDouble 0 = Fin 0" "toDouble 1 = Fin 1" "toDouble 2 = Fin 2"
  "toDouble (1 / 2) = Fin (1 / 2)" "toDouble 50 = Fin 50" "toDouble 100 = Fin 100"
  "toDouble (1 / 2 ^ 60) = Fin (1 / 2 ^ 60)"
proof -
  show "toDouble 0 = Fin 0" by (simp add: toDouble_def)
  show "toDouble 1 = Fin 1"
    by (rule toDouble_exact [of 1 0 "2 ^ 52"]) (simp_all add: power_int_def)
  show "toDouble 2 = Fin 2"
    by (rule toDouble_exact [of 2 1 "2 ^ 52"]) (simp_all add: power_int_def)
  show "toDouble (1 / 2) = Fin (1 / 2)"
    by (rule toDouble_exact [of "1 / 2" "- 1" "2 ^ 52"])
       (simp_all add: power_int_def powr_minus field_simps)
  show "toDouble 50 = Fin 50"
    by (rule toDouble_exact [of 50 5 "50 * 2 ^ 47"]) (simp_all add: power_int_def)
  show "toDouble 100 = Fin 100"
    by (rule toDouble_exact [of 100 6 "100 * 2 ^ 46"]) (simp_all add: power_int_def)
  show "toDouble (1 / 2 ^ 60) = Fin (1 / 2 ^ 60)"
    by (rule toDouble_exact [of "1 / 2 ^ 60" "- 60" "2 ^ 52"])
       (simp_all add: power_int_def powr_minus field_simps)
qed


subsection \<open>The primitives on doubles\<close>



text \<open>At the rate 1 over one period every intermediate value is a double: 100 comes back.\<close>

lemma pmtD_pvD_at_one:
  "pvD (Fin 1) 1 (Fin 100) (Fin 0) (Fin 0) = Fin 50"
  "pmtD (Fin 1) 1 (Fin 50) (Fin 0) (Fin 0) = Fin 100"
  by (simp_all add: pvD_def pmtD_def dadd_def dsub_def dmul_def ddiv_def dpow_def jsub_def
      toDouble_values Let_def)




section \<open>The capacity calculator\<close>

lemma allowedDebt_computeCapacity:
  "allowedDebt (computeCapacity i) =
     guarded_allowedDebt (getTotalRevenue i) (getNettFinancing i) (getTotalOpex i)
       (minDSCR i) (rate i) (termYears i) (graceYears i)"
  by (simp add: computeCapacity_def guarded_allowedDebt_def spec_NOI_def spec_pvAfterGrace_def
      spec_capInterestOnly_def Let_def)

lemma calculatedMaxDebt_computeCapacityV:
  "calculatedMaxDebt (computeCapacityV i) =
     guarded_allowedDebt (getTotalRevenueV i) (getNettFinancingV i) (getTotalOpexV i)
       (minDSCRV i) (rateV i) (termYearsV i) (graceYearsV i)"
  by (simp add: computeCapacityV_def guarded_allowedDebt_def spec_NOI_def spec_pvAfterGrace_def
      spec_capInterestOnly_def Let_def)

lemma guarded_eq_spec:
  assumes "spec_pvAfterGrace (jdiv (spec_NOI tr nf tox) mdscr) rt term grace \<noteq> NaN"
  shows "guarded_allowedDebt tr nf tox mdscr rt term grace =
         spec_allowedDebt tr nf tox mdscr rt term grace"
  using assms by (simp add: guarded_allowedDebt_def spec_allowedDebt_def Let_def jor_zero)

lemmas scenario_unfold =
  scenario_def getTotalRevenue_def getNettFinancing_def getTotalOpex_def jsub_def Let_def
  pv_def jor_def jgt_def spec_NOI_def spec_pvAfterGrace_def spec_capInterestOnly_def
  power_divide

lemmas scenarioV_unfold =
  scenarioV_def getTotalRevenueV_def getNettFinancingV_def getTotalOpexV_def jsub_def Let_def
  pv_def jor_def jgt_def spec_NOI_def spec_pvAfterGrace_def spec_capInterestOnly_def
  power_divide

text \<open>
  Claim C1, as the code has it.  In both engine files \<open>computeCapacity\<close> returns
  \<open>NOI = max(totalRevenue + netFinancing - totalOpex, 0)\<close>, which is never below zero,
  and a ceiling \<open>max(0, min(0.75 * totalRevenue, dscrCeiling))\<close> where
  \<open>dscrCeiling = min(pvAfterGrace || 0, capInterestOnly)\<close>: a present value that is
  \<open>NaN\<close> counts as 0.  Whenever the present value is not \<open>NaN\<close> the ceiling is the
  specification's formula \<open>min(pvAfterGrace, capInterestOnly)\<close> unchanged.
\<close>

theorem computeCapacity_ceiling:
  "NOI (computeCapacity i) =
     spec_NOI (getTotalRevenue i) (getNettFinancing i) (getTotalOpex i) \<and>
   \<not> jlt (NOI (computeCapacity i)) (Fin 0) \<and>
   allowedDebt (computeCapacity i) =
     guarded_allowedDebt (getTotalRevenue i) (getNettFinancing i) (getTotalOpex i)
       (minDSCR i) (rate i) (termYears i) (graceYears i) \<and>
   (spec_pvAfterGrace
      (jdiv (spec_NOI (getTotalRevenue i) (getNettFinancing i) (getTotalOpex i)) (minDSCR i))
      (rate i) (termYears i) (graceYears i) \<noteq> NaN \<longrightarrow>
    allowedDebt (computeCapacity i) =
      spec_allowedDebt (getTotalRevenue i) (getNettFinancing i) (getTotalOpex i)
        (minDSCR i) (rate i) (termYears i) (graceYears i)) \<and>
   NOIV (computeCapacityV j) =
     spec_NOI (getTotalRevenueV j) (getNettFinancingV j) (getTotalOpexV j) \<and>
   \<not> jlt (NOIV (computeCapacityV j)) (Fin 0) \<and>
   calculatedMaxDebt (computeCapacityV j) =
     guarded_allowedDebt (getTotalRevenueV j) (getNettFinancingV j) (getTotalOpexV j)
       (minDSCRV j) (rateV j) (termYearsV j) (graceYearsV j) \<and>
   (spec_pvAfterGrace
      (jdiv (spec_NOI (getTotalRevenueV j) (getNettFinancingV j) (getTotalOpexV j)) (minDSCRV j))
      (rateV j) (termYearsV j) (graceYearsV j) \<noteq> NaN \<longrightarrow>
    calculatedMaxDebt (computeCapacityV j) =
      spec_allowedDebt (getTotalRevenueV j) (getNettFinancingV j) (getTotalOpexV j)
        (minDSCRV j) (rateV j) (termYearsV j) (graceYearsV j))"
proof -
  have n: "NOI (computeCapacity i) =
      spec_NOI (getTotalRevenue i) (getNettFinancing i) (getTotalOpex i)"
    by (simp add: computeCapacity_def spec_NOI_def Let_def)
  have nV: "NOIV (computeCapacityV j) =
      spec_NOI (getTotalRevenueV j) (getNettFinancingV j) (getTotalOpexV j)"
    by (simp add: computeCapacityV_def spec_NOI_def Let_def)
  have pos: "\<not> jlt (spec_NOI tr nf tox) (Fin 0)" for tr nf tox
    unfolding spec_NOI_def by (rule jmax_zero_not_negative)
  show ?thesis
    using n nV pos allowedDebt_computeCapacity [of i] calculatedMaxDebt_computeCapacityV [of j]
      guarded_eq_spec
    by simp
qed

theorem computeCapacity_ceiling_witness:
  "spec_pvAfterGrace
      (jdiv (spec_NOI (getTotalRevenue scenario) (getNettFinancing scenario)
         (getTotalOpex scenario)) (minDSCR scenario))
      (rate scenario) (termYears scenario) (graceYears scenario) \<noteq> NaN \<and>
   NOI (computeCapacity scenario) = Fin 200000000000 \<and>
   NOI (computeCapacity deficit) = Fin 0 \<and>
   allowedDebt (computeCapacity scenario) =
      spec_allowedDebt (getTotalRevenue scenario) (getNettFinancing scenario)
        (getTotalOpex scenario) (minDSCR scenario) (rate scenario) (termYears scenario)
        (graceYears scenario) \<and>
   spec_pvAfterGrace
      (jdiv (spec_NOI (getTotalRevenueV scenarioV) (getNettFinancingV scenarioV)
         (getTotalOpexV scenarioV)) (minDSCRV scenarioV))
      (rateV scenarioV) (termYearsV scenarioV) (graceYearsV scenarioV) \<noteq> NaN \<and>
   calculatedMaxDebt (computeCapacityV scenarioV) =
      spec_allowedDebt (getTotalRevenueV scenarioV) (getNettFinancingV scenarioV)
        (getTotalOpexV scenarioV) (minDSCRV scenarioV) (rateV scenarioV)
        (termYearsV scenarioV) (graceYearsV scenarioV)"
proof -
  have 1: "spec_pvAfterGrace
      (jdiv (spec_NOI (getTotalRevenue scenario) (getNettFinancing scenario)
         (getTotalOpex scenario)) (minDSCR scenario))
      (rate scenario) (termYears scenario) (graceYears scenario) \<noteq> NaN"
    by (simp add: scenario_unfold)
  have 2: "spec_pvAfterGrace
      (jdiv (spec_NOI (getTotalRevenueV scenarioV) (getNettFinancingV scenarioV)
         (getTotalOpexV scenarioV)) (minDSCRV scenarioV))
      (rateV scenarioV) (termYearsV scenarioV) (graceYearsV scenarioV) \<noteq> NaN"
    by (simp add: scenarioV_unfold)
  have 3: "NOI (computeCapacity scenario) = Fin 200000000000"
    by (simp add: computeCapacity_def scenario_unfold)
  have 4: "NOI (computeCapacity deficit) = Fin 0"
    by (simp add: computeCapacity_def deficit_def scenario_unfold)
  note T = computeCapacity_ceiling [of scenario scenarioV]
  from T 1 have 5: "allowedDebt (computeCapacity scenario) =
      spec_allowedDebt (getTotalRevenue scenario) (getNettFinancing scenario)
        (getTotalOpex scenario) (minDSCR scenario) (rate scenario) (termYears scenario)
        (graceYears scenario)"
    by blast
  from T 2 have 6: "calculatedMaxDebt (computeCapacityV scenarioV) =
      spec_allowedDebt (getTotalRevenueV scenarioV) (getNettFinancingV scenarioV)
        (getTotalOpexV scenarioV) (minDSCRV scenarioV) (rateV scenarioV)
        (termYearsV scenarioV) (graceYearsV scenarioV)"
    by blast
  from 1 2 3 4 5 6 show ?thesis
    by (intro conjI)
qed

text \<open>
  At a rate of minus 100 percent the present value is \<open>NaN\<close>; the code returns the
  ceiling 0 where the formula of claim C1 gives \<open>NaN\<close>.
\<close>

theorem computeCapacity_ceiling_counterexample:
  "allowedDebt (computeCapacity capacity_cex) = Fin 0 \<and>
   spec_allowedDebt (getTotalRevenue capacity_cex) (getNettFinancing capacity_cex)
     (getTotalOpex capacity_cex) (minDSCR capacity_cex) (rate capacity_cex)
     (termYears capacity_cex) (graceYears capacity_cex) = NaN"
  by (simp add: computeCapacity_def capacity_cex_def spec_allowedDebt_def scenario_unfold)

text \<open>
  Claim C9, as the code has it.  In both engine files the binding constraint is labelled
  ``75% of prior revenue'' exactly when the allowed debt and the statutory ceiling differ
  by less than 1e-6 in absolute value, and ``DSCR constraint'' otherwise.
\<close>

theorem binding_absolute_tolerance:
  "(binding (computeCapacity i) = ''75% of prior revenue'') =
     jlt (jabs (jsub (allowedDebt (computeCapacity i)) (maxDebtRevenueRule (computeCapacity i))))
         (Fin 0.000001) \<and>
   (binding (computeCapacity i) = ''DSCR constraint'') =
     (\<not> jlt (jabs (jsub (allowedDebt (computeCapacity i)) (maxDebtRevenueRule (computeCapacity i))))
           (Fin 0.000001)) \<and>
   (bindingV (computeCapacityV j) = ''75% of prior revenue'') =
     jlt (jabs (jsub (calculatedMaxDebt (computeCapacityV j))
                     (maxDebtRevenueRuleV (computeCapacityV j))))
         (Fin 0.000001) \<and>
   (bindingV (computeCapacityV j) = ''DSCR constraint'') =
     (\<not> jlt (jabs (jsub (calculatedMaxDebt (computeCapacityV j))
                       (maxDebtRevenueRuleV (computeCapacityV j))))
           (Fin 0.000001))"
  by (simp add: computeCapacity_def computeCapacityV_def Let_def)

text \<open>
  An allowed debt of 2,999,999 against a statutory ceiling of 3,000,000 is within a
  relative tolerance of 1e-6, and the label is the coverage one.
\<close>

theorem binding_relative_counterexample:
  "allowedDebt (computeCapacity binding_cex) = Fin 2999999 \<and>
   maxDebtRevenueRule (computeCapacity binding_cex) = Fin 3000000 \<and>
   spec_relClose (allowedDebt (computeCapacity binding_cex))
     (maxDebtRevenueRule (computeCapacity binding_cex)) \<and>
   binding (computeCapacity binding_cex) = ''DSCR constraint''"
proof -
  have v: "allowedDebt (computeCapacity binding_cex) = Fin 2999999"
    "maxDebtRevenueRule (computeCapacity binding_cex) = Fin 3000000"
    "binding (computeCapacity binding_cex) = ''DSCR constraint''"
    by (simp_all add: computeCapacity_def binding_cex_def getTotalRevenue_def
        getNettFinancing_def getTotalOpex_def jsub_def Let_def pv_def jor_def jgt_def jint_def)
  show ?thesis
    by (simp add: v spec_relClose_def jsub_def)
qed

subsection \<open>Monotonicity of the ceiling\<close>

text \<open>
  On finite values the guarded present value is linear in the annual debt service: the
  rate 0 gives the number of amortising years as factor, the rate \<open>-1\<close> the factor 0
  (the present value is \<open>NaN\<close> there), any other rate the discounted annuity factor.
\<close>

lemma pvAfterGrace_linear:
  "\<exists>c. \<forall>x. jor (spec_pvAfterGrace (Fin x) (Fin r) term grace) (Fin 0) = Fin (c * x)"
proof (cases "0 < max (term - grace) 0")
  case False
  then have "\<forall>x. jor (spec_pvAfterGrace (Fin x) (Fin r) term grace) (Fin 0) = Fin (0 * x)"
    by (simp add: spec_pvAfterGrace_def jor_def)
  then show ?thesis by blast
next
  case True
  then have A: "max (term - grace) 0 = term - grace" "grace < term" "\<not> term \<le> grace"
    by auto
  show ?thesis
  proof (cases "r = 0")
    case True
    have "jpow (Fin 1) grace = Fin 1" by simp
    then have "\<forall>x. jor (spec_pvAfterGrace (Fin x) (Fin r) term grace) (Fin 0)
                = Fin (real_of_int (term - grace) * x)"
      using True
      by (simp add: spec_pvAfterGrace_def A pv_def jint_def jor_def mult.commute del: jpow.simps)
    then show ?thesis by blast
  next
    case r0: False
    show ?thesis
    proof (cases "r = - 1")
      case True
      have "- (term - grace) < 0" "- (term - grace) \<noteq> 0" using A by auto
      then have p: "jpow (Fin 0) (- (term - grace)) = PInf" by simp
      have "\<forall>x. jor (spec_pvAfterGrace (Fin x) (Fin r) term grace) (Fin 0) = Fin (0 * x)"
        using True p
        by (simp add: spec_pvAfterGrace_def A pv_def jsub_def jor_def Let_def del: jpow.simps)
      then show ?thesis by blast
    next
      case False
      then have b: "1 + r \<noteq> 0" by simp
      obtain q where q: "jpow (Fin (1 + r)) (- (term - grace)) = Fin q"
        using jpow_Fin_nonzero [OF b] by blast
      obtain g where g: "jpow (Fin (1 + r)) grace = Fin g" "g \<noteq> 0"
        using jpow_Fin_nonzero [OF b] by blast
      have "\<forall>x. jor (spec_pvAfterGrace (Fin x) (Fin r) term grace) (Fin 0)
              = Fin ((1 - q) / r / g * x)"
        using r0 q g
        by (simp add: spec_pvAfterGrace_def A pv_def jsub_def jor_def Let_def del: jpow.simps)
      then show ?thesis by blast
    qed
  qed
qed

lemma ceilingOf_mono:
  assumes "t1 \<le> t2" "0 \<le> x1" "x1 \<le> x2"
  shows "ceilingOf c r t1 x1 \<le> ceilingOf c r t2 x2"
proof (cases "0 \<le> c")
  case True
  then have cx: "c * x1 \<le> c * x2"
    using assms by (simp add: mult_left_mono)
  have "0 < r \<Longrightarrow> x1 / r \<le> x2 / r"
    using assms by (simp add: divide_right_mono)
  then show ?thesis
    using cx assms(1) by (auto simp: ceilingOf_def)
next
  case False
  then have "c * x1 \<le> 0" "c * x2 \<le> 0"
    using assms by (simp_all add: mult_nonpos_nonneg)
  then show ?thesis
    by (auto simp: ceilingOf_def)
qed

lemma ceilingOf_mono_nonpos:
  assumes "t1 \<le> t2" "x2 \<le> x1" "x1 \<le> 0"
  shows "ceilingOf c r t1 x1 \<le> ceilingOf c r t2 x2"
proof (cases "0 < r")
  case True
  then have "x1 / r \<le> 0" "x2 / r \<le> 0"
    using assms by (simp_all add: divide_le_0_iff)
  then show ?thesis
    using True by (auto simp: ceilingOf_def)
next
  case r: False
  show ?thesis
  proof (cases "0 \<le> c")
    case True
    then have "c * x1 \<le> 0" "c * x2 \<le> 0"
      using assms by (simp_all add: mult_nonneg_nonpos)
    then show ?thesis
      using r by (auto simp: ceilingOf_def)
  next
    case False
    then have "c * x1 \<le> c * x2"
      using assms by (simp add: mult_left_mono_neg)
    then show ?thesis
      using r assms(1) by (auto simp: ceilingOf_def)
  qed
qed

lemma guarded_finite:
  assumes "d \<noteq> 0"
    and "\<And>x. jor (spec_pvAfterGrace (Fin x) (Fin r) term grace) (Fin 0) = Fin (c * x)"
  shows "guarded_allowedDebt (Fin t) (Fin nf) (Fin tox) (Fin d) (Fin r) term grace
     = Fin (ceilingOf c r (0.75 * t) (max (t + nf - tox) 0 / d))"
  using assms
  by (simp add: guarded_allowedDebt_def spec_NOI_def spec_capInterestOnly_def jsub_def jgt_def
      Let_def ceilingOf_def)

lemma guarded_ceiling_mono_floor:
  assumes "0 < m" "m \<le> m'"
  shows "jle (guarded_allowedDebt (Fin tr) (Fin nf) (Fin tox) (Fin m') (Fin r) term grace)
             (guarded_allowedDebt (Fin tr) (Fin nf) (Fin tox) (Fin m) (Fin r) term grace)"
proof -
  obtain c where c: "\<And>x. jor (spec_pvAfterGrace (Fin x) (Fin r) term grace) (Fin 0) = Fin (c * x)"
    using pvAfterGrace_linear by blast
  have m': "0 < m'" using assms by simp
  have "max (tr + nf - tox) 0 / m' \<le> max (tr + nf - tox) 0 / m"
    using assms by (simp add: frac_le)
  moreover have "0 \<le> max (tr + nf - tox) 0 / m'" using m' by simp
  ultimately have "ceilingOf c r (0.75 * tr) (max (tr + nf - tox) 0 / m')
      \<le> ceilingOf c r (0.75 * tr) (max (tr + nf - tox) 0 / m)"
    by (intro ceilingOf_mono) simp_all
  then show ?thesis
    using assms m' by (simp add: guarded_finite [OF _ c])
qed

lemma guarded_ceiling_mono_revenue:
  assumes "m \<noteq> 0" "tr \<le> tr'"
  shows "jle (guarded_allowedDebt (Fin tr) (Fin nf) (Fin tox) (Fin m) (Fin r) term grace)
             (guarded_allowedDebt (Fin tr') (Fin nf) (Fin tox) (Fin m) (Fin r) term grace)"
proof -
  obtain c where c: "\<And>x. jor (spec_pvAfterGrace (Fin x) (Fin r) term grace) (Fin 0) = Fin (c * x)"
    using pvAfterGrace_linear by blast
  have noi: "max (tr + nf - tox) 0 \<le> max (tr' + nf - tox) 0" "0 \<le> max (tr + nf - tox) 0"
    using assms(2) by auto
  have t: "0.75 * tr \<le> 0.75 * tr'"
    using assms(2) by simp
  have "ceilingOf c r (0.75 * tr) (max (tr + nf - tox) 0 / m)
      \<le> ceilingOf c r (0.75 * tr') (max (tr' + nf - tox) 0 / m)"
  proof (cases "0 < m")
    case True
    then have "max (tr + nf - tox) 0 / m \<le> max (tr' + nf - tox) 0 / m"
      "0 \<le> max (tr + nf - tox) 0 / m"
      using noi by (simp_all add: divide_right_mono)
    then show ?thesis
      using t by (intro ceilingOf_mono)
  next
    case False
    with assms(1) have "m < 0" by simp
    then have "max (tr' + nf - tox) 0 / m \<le> max (tr + nf - tox) 0 / m"
      "max (tr + nf - tox) 0 / m \<le> 0"
      using noi by (simp_all add: divide_right_mono_neg divide_le_0_iff)
    then show ?thesis
      using t by (intro ceilingOf_mono_nonpos)
  qed
  then show ?thesis
    using assms(1) by (simp add: guarded_finite [OF _ c])
qed

text \<open>
  Claim C5, as the code has it.  For finite inputs, all other inputs held fixed: from a
  coverage floor above zero, raising \<open>minDSCR\<close> never gives an allowed-debt ceiling of
  \<open>computeCapacity\<close> above the former one; and with a coverage floor other than zero,
  raising any one of the three revenue components never gives a ceiling below the
  former one.  (A ceiling that is \<open>NaN\<close> is neither above nor below another.)
\<close>

theorem ceiling_monotone:
  assumes "finiteCapacityInputs i"
  shows "(jlt (Fin 0) (minDSCR i) \<and> jle (minDSCR i) (Fin m') \<longrightarrow>
            \<not> jlt (allowedDebt (computeCapacity i))
                  (allowedDebt (computeCapacity (i\<lparr>minDSCR := Fin m'\<rparr>)))) \<and>
         (minDSCR i \<noteq> Fin 0 \<and> jle (localRevenuePAD i) (Fin v) \<longrightarrow>
            \<not> jlt (allowedDebt (computeCapacity (i\<lparr>localRevenuePAD := Fin v\<rparr>)))
                  (allowedDebt (computeCapacity i))) \<and>
         (minDSCR i \<noteq> Fin 0 \<and> jle (balancingFundPerimbangan i) (Fin v) \<longrightarrow>
            \<not> jlt (allowedDebt (computeCapacity (i\<lparr>balancingFundPerimbangan := Fin v\<rparr>)))
                  (allowedDebt (computeCapacity i))) \<and>
         (minDSCR i \<noteq> Fin 0 \<and> jle (otherLegalRevenue i) (Fin v) \<longrightarrow>
            \<not> jlt (allowedDebt (computeCapacity (i\<lparr>otherLegalRevenue := Fin v\<rparr>)))
                  (allowedDebt (computeCapacity i)))"
proof -
  from assms(1) obtain p1 p2 p3 f1 f2 e1 e2 e3 r m where f:
    "localRevenuePAD i = Fin p1" "balancingFundPerimbangan i = Fin p2"
    "otherLegalRevenue i = Fin p3" "financingReceipts i = Fin f1"
    "financingExpenditures i = Fin f2" "personnelExpenses i = Fin e1"
    "goodsServicesExpenses i = Fin e2" "capitalExpenditures i = Fin e3"
    "rate i = Fin r" "minDSCR i = Fin m"
    unfolding finiteCapacityInputs_def by (auto elim!: isFiniteE)
  note defs = allowedDebt_computeCapacity getTotalRevenue_def getNettFinancing_def
    getTotalOpex_def jsub_def
  have "jle (allowedDebt (computeCapacity (i\<lparr>minDSCR := Fin m'\<rparr>)))
            (allowedDebt (computeCapacity i))" if "0 < m" "m \<le> m'"
    using guarded_ceiling_mono_floor [OF that] by (simp add: defs f)
  then have 1: "\<not> jlt (allowedDebt (computeCapacity i))
                      (allowedDebt (computeCapacity (i\<lparr>minDSCR := Fin m'\<rparr>)))"
    if "0 < m" "m \<le> m'"
    using that by (intro jle_not_jlt)
  have "jle (allowedDebt (computeCapacity i))
            (allowedDebt (computeCapacity (i\<lparr>localRevenuePAD := Fin v\<rparr>)))"
    if "m \<noteq> 0" "p1 \<le> v"
    using guarded_ceiling_mono_revenue [OF that(1), of "p1 + p2 + p3" "v + p2 + p3"] that(2)
    by (simp add: defs f)
  then have 2: "\<not> jlt (allowedDebt (computeCapacity (i\<lparr>localRevenuePAD := Fin v\<rparr>)))
                      (allowedDebt (computeCapacity i))"
    if "m \<noteq> 0" "p1 \<le> v"
    using that by (intro jle_not_jlt)
  have "jle (allowedDebt (computeCapacity i))
            (allowedDebt (computeCapacity (i\<lparr>balancingFundPerimbangan := Fin v\<rparr>)))"
    if "m \<noteq> 0" "p2 \<le> v"
    using guarded_ceiling_mono_revenue [OF that(1), of "p1 + p2 + p3" "p1 + v + p3"] that(2)
    by (simp add: defs f)
  then have 3: "\<not> jlt (allowedDebt (computeCapacity (i\<lparr>balancingFundPerimbangan := Fin v\<rparr>)))
                      (allowedDebt (computeCapacity i))"
    if "m \<noteq> 0" "p2 \<le> v"
    using that by (intro jle_not_jlt)
  have "jle (allowedDebt (computeCapacity i))
            (allowedDebt (computeCapacity (i\<lparr>otherLegalRevenue := Fin v\<rparr>)))"
    if "m \<noteq> 0" "p3 \<le> v"
    using guarded_ceiling_mono_revenue [OF that(1), of "p1 + p2 + p3" "p1 + p2 + v"] that(2)
    by (simp add: defs f)
  then have 4: "\<not> jlt (allowedDebt (computeCapacity (i\<lparr>otherLegalRevenue := Fin v\<rparr>)))
                      (allowedDebt (computeCapacity i))"
    if "m \<noteq> 0" "p3 \<le> v"
    using that by (intro jle_not_jlt)
  show ?thesis using 1 2 3 4 f by simp
qed

theorem ceiling_monotone_witness:
  "finiteCapacityInputs scenario \<and> jlt (Fin 0) (minDSCR scenario) \<and>
   jle (minDSCR scenario) (Fin 3) \<and>
   \<not> jlt (allowedDebt (computeCapacity scenario))
         (allowedDebt (computeCapacity (scenario\<lparr>minDSCR := Fin 3\<rparr>))) \<and>
   minDSCR scenario \<noteq> Fin 0 \<and>
   jle (localRevenuePAD scenario) (Fin 2000000000000) \<and>
   \<not> jlt (allowedDebt (computeCapacity (scenario\<lparr>localRevenuePAD := Fin 2000000000000\<rparr>)))
         (allowedDebt (computeCapacity scenario))"
proof -
  have 1: "finiteCapacityInputs scenario" "jlt (Fin 0) (minDSCR scenario)"
    "jle (minDSCR scenario) (Fin 3)" "minDSCR scenario \<noteq> Fin 0"
    "jle (localRevenuePAD scenario) (Fin 2000000000000)"
    by (simp_all add: finiteCapacityInputs_def scenario_def)
  note T = ceiling_monotone [OF 1(1)]
  from T [of 3] 1(2,3) have 2:
    "\<not> jlt (allowedDebt (computeCapacity scenario))
           (allowedDebt (computeCapacity (scenario\<lparr>minDSCR := Fin 3\<rparr>)))"
    by blast
  from T [of _ 2000000000000] 1(4,5) have 3:
    "\<not> jlt (allowedDebt (computeCapacity (scenario\<lparr>localRevenuePAD := Fin 2000000000000\<rparr>)))
           (allowedDebt (computeCapacity scenario))"
    by blast
  from 1 2 3 show ?thesis
    by (intro conjI)
qed

text \<open>
  Raising the coverage floor from \<open>-1\<close> to 1 raises the ceiling of the scenario from 0 to
  a positive amount.
\<close>

theorem ceiling_monotone_counterexample:
  "jle (Fin (- 1)) (Fin 1) \<and>
   allowedDebt (computeCapacity (scenario\<lparr>minDSCR := Fin (- 1)\<rparr>)) = Fin 0 \<and>
   jlt (allowedDebt (computeCapacity (scenario\<lparr>minDSCR := Fin (- 1)\<rparr>)))
       (allowedDebt (computeCapacity (scenario\<lparr>minDSCR := Fin 1\<rparr>)))"
  by (simp add: computeCapacity_def scenario_unfold)

subsection \<open>The operating-expense override\<close>

text \<open>
  Claim C10, as the code has it.  In the engine with a single operating-expense figure,
  \<open>getTotalOpex\<close> returns the override when it is truthy (a number other than 0 and
  \<open>NaN\<close>); otherwise, so when the override is 0, it returns the sum of the breakdown
  components, where a component that is missing, 0 or \<open>NaN\<close> counts as 0 and any other
  component as itself.  On the object as it is at run time an override of 0 and an absent
  override give the same result.
\<close>

theorem getTotalOpexV_override:
  "(truthy (operatingExpensesV i) \<longrightarrow> getTotalOpexV i = operatingExpensesV i) \<and>
   (\<not> truthy (operatingExpensesV i) \<longrightarrow>
      getTotalOpexV i =
        jadd (jadd (jorOpt (personnelExpensesV i) (Fin 0))
                   (jorOpt (goodsServicesExpensesV i) (Fin 0)))
             (jorOpt (capitalExpendituresV i) (Fin 0))) \<and>
   jorOpt c (Fin 0) = (if c = Some NaN then Fin 0 else componentOrZero c) \<and>
   getTotalOpexV i =
     getTotalOpexAt (Some (operatingExpensesV i)) (personnelExpensesV i)
       (goodsServicesExpensesV i) (capitalExpendituresV i) \<and>
   getTotalOpexAt (Some (Fin 0)) pe gs ce = getTotalOpexAt None pe gs ce"
  by (simp add: getTotalOpexV_def jorOpt_zero)

theorem getTotalOpexV_override_witness:
  "truthy (operatingExpensesV scenarioV) \<and>
   getTotalOpexV scenarioV = Fin 800000000000 \<and>
   \<not> truthy (operatingExpensesV breakdownV) \<and>
   personnelExpensesV breakdownV = Some (Fin 5) \<and>
   goodsServicesExpensesV breakdownV = None \<and>
   capitalExpendituresV breakdownV = Some (Fin 7) \<and>
   getTotalOpexV breakdownV = Fin 12 \<and>
   getTotalOpexAt None (Some (Fin 5)) None (Some (Fin 7)) = Fin 12"
proof -
  have 1: "operatingExpensesV scenarioV = Fin 800000000000"
    "operatingExpensesV breakdownV = Fin 0" "personnelExpensesV breakdownV = Some (Fin 5)"
    "goodsServicesExpensesV breakdownV = None" "capitalExpendituresV breakdownV = Some (Fin 7)"
    by (simp_all add: breakdownV_def scenarioV_def)
  have t: "truthy (operatingExpensesV scenarioV)" "\<not> truthy (operatingExpensesV breakdownV)"
    by (simp_all add: 1)
  from getTotalOpexV_override [of scenarioV] t(1) 1(1)
  have 2: "getTotalOpexV scenarioV = Fin 800000000000"
    by simp
  from getTotalOpexV_override [of breakdownV] t(2) 1
  have 3: "getTotalOpexV breakdownV = Fin 12"
    by (simp add: jor_def componentOrZero_def)
  from getTotalOpexV_override [of breakdownV _ "Some (Fin 5)" None "Some (Fin 7)"] 3 1
  have 4: "getTotalOpexAt None (Some (Fin 5)) None (Some (Fin 7)) = Fin 12"
    by (simp add: jor_def componentOrZero_def)
  from t 1 2 3 4 show ?thesis
    by (intro conjI)
qed

text \<open>
  With a zero override and the components \<open>NaN\<close>, 1 and 5 the code returns 6, while
  the sum of the components, the missing ones counted as 0, is \<open>NaN\<close>.
\<close>

theorem getTotalOpexV_override_counterexample:
  "operatingExpensesV nanBreakdownV = Fin 0 \<and>
   getTotalOpexV nanBreakdownV = Fin 6 \<and>
   jadd (jadd (componentOrZero (personnelExpensesV nanBreakdownV))
              (componentOrZero (goodsServicesExpensesV nanBreakdownV)))
        (componentOrZero (capitalExpendituresV nanBreakdownV)) = NaN"
  by (simp add: nanBreakdownV_def scenarioV_def getTotalOpexV_def componentOrZero_def jor_def)

section \<open>The schedule builder\<close>

subsection \<open>The loop of \<open>src/lib/finance.ts\<close>\<close>

lemma scheduleLoop_Nil: "n < y \<Longrightarrow> scheduleLoop i n A ap ep y pb rv ox rb = []"
  by (simp add: scheduleLoop.simps)

lemma scheduleLoop_Cons:
  "y \<le> n \<Longrightarrow> scheduleLoop i n A ap ep y pb rv ox rb =
     scheduleRow i n A ap ep y pb rv ox rb #
     scheduleLoop i n A ap ep (y + 1)
       (jmax (jsub pb (principal (scheduleRow i n A ap ep y pb rv ox rb))) (Fin 0))
       (jmul rv (jadd (Fin 1) (revGrowth i)))
       (jmul ox (jadd (Fin 1) (opexGrowth i)))
       (reserveEnd (scheduleRow i n A ap ep y pb rv ox rb))"
  by (subst scheduleLoop.simps) simp

lemma scheduleLoop_hd:
  "y \<le> n \<Longrightarrow>
   hd (scheduleLoop i n A ap ep y pb rv ox rb) = scheduleRow i n A ap ep y pb rv ox rb"
  by (simp add: scheduleLoop_Cons)

lemma scheduleLoop_empty_iff: "scheduleLoop i n A ap ep y pb rv ox rb = [] \<longleftrightarrow> n < y"
  by (subst scheduleLoop.simps) auto

lemma scheduleLoop_length:
  "length (scheduleLoop i n A ap ep y pb rv ox rb) = nat (n + 1 - y)"
proof (induction i n A ap ep y pb rv ox rb rule: scheduleLoop.induct)
  case (1 i n A ap ep y pb rv ox rb)
  show ?case
  proof (cases "y \<le> n")
    case True
    then show ?thesis using 1 by (simp add: scheduleLoop_Cons nat_add_distrib)
  next
    case False
    then show ?thesis by (simp add: scheduleLoop_Nil)
  qed
qed

text \<open>The rows are those of the years \<open>y\<close>, \<open>y + 1\<close>, ... in this order.\<close>

lemma scheduleLoop_years:
  "\<forall>k<length (scheduleLoop i n A ap ep y pb rv ox rb).
     year (scheduleLoop i n A ap ep y pb rv ox rb ! k) = y + int k"
proof (induction i n A ap ep y pb rv ox rb rule: scheduleLoop.induct)
  case (1 i n A ap ep y pb rv ox rb)
  show ?case
  proof (cases "y \<le> n")
    case False
    then show ?thesis by (simp add: scheduleLoop_Nil)
  next
    case True
    have "year (scheduleRow i n A ap ep y pb rv ox rb) = y"
      by (simp add: scheduleRow_def Let_def)
    then show ?thesis
      using 1 [OF True] by (auto simp: scheduleLoop_Cons [OF True] nth_Cons split: nat.splits)
  qed
qed


lemma scheduleRow_fields [simp]:
  "year (scheduleRow i n A ap ep y pb rv ox rb) = y"
  "begBal (scheduleRow i n A ap ep y pb rv ox rb) = pb"
  by (simp_all add: scheduleRow_def Let_def)


text \<open>
  The look-ahead of year \<open>y\<close> and the debt service of year \<open>y + 1\<close>: inside the term a
  year after the grace period has amortising years, so the guards \<open>amortYears > 0\<close> of
  the look-ahead are true wherever they are reached.
\<close>

lemma scheduleRow_lookahead:
  assumes "y < n" "n \<le> termYears i" "A = max 0 (termYears i - graceYears i)"
  shows "reserveTarget (scheduleRow i n A ap ep y pb rv ox rb) =
         debtService (scheduleRow i n A ap ep (y + 1)
           (jmax (jsub pb (principal (scheduleRow i n A ap ep y pb rv ox rb))) (Fin 0))
           rv' ox' rb')"
  using assms by (simp add: scheduleRow_def Let_def)

lemma scheduleRow_last_target:
  "reserveTarget (scheduleRow i n A ap ep n pb rv ox rb) = Fin 0"
  by (simp add: scheduleRow_def Let_def)

lemma scheduleLoop_lookahead:
  assumes "n < y \<or> n \<le> termYears i" "A = max 0 (termYears i - graceYears i)"
  shows "successively (\<lambda>r r'. reserveTarget r = debtService r')
           (scheduleLoop i n A ap ep y pb rv ox rb)"
  using assms
proof (induction i n A ap ep y pb rv ox rb rule: scheduleLoop.induct)
  case (1 i n A ap ep y pb rv ox rb)
  show ?case
  proof (cases "y \<le> n")
    case False
    then show ?thesis by (simp add: scheduleLoop_Nil)
  next
    case True
    with 1(2) have nT: "n \<le> termYears i" by simp
    then have "n < y + 1 \<or> n \<le> termYears i" by simp
    note IH = 1(1) [OF True this 1(3)]
    show ?thesis
    proof (cases "y + 1 \<le> n")
      case False
      then show ?thesis using True by (simp add: scheduleLoop_Cons scheduleLoop_Nil)
    next
      case yn: True
      then have "y < n" by simp
      from scheduleRow_lookahead [OF this nT 1(3)] IH show ?thesis
        by (simp add: scheduleLoop_Cons [OF True] successively_Cons scheduleLoop_hd [OF yn])
    qed
  qed
qed

lemma scheduleLoop_last:
  "y \<le> n \<Longrightarrow> reserveTarget (last (scheduleLoop i n A ap ep y pb rv ox rb)) = Fin 0"
proof (induction i n A ap ep y pb rv ox rb rule: scheduleLoop.induct)
  case (1 i n A ap ep y pb rv ox rb)
  show ?case
  proof (cases "y + 1 \<le> n")
    case True
    then show ?thesis
      using 1 by (simp add: scheduleLoop_Cons [OF 1(2)] scheduleLoop_empty_iff)
  next
    case False
    with 1(2) have "y = n" by simp
    then show ?thesis
      by (simp add: scheduleLoop_Cons scheduleLoop_Nil scheduleRow_last_target)
  qed
qed





subsection \<open>\<open>buildSchedule\<close> of \<open>src/lib/finance.ts\<close>\<close>

lemma buildSchedule_length: "length (buildSchedule i a) = nat (termYears i)"
  by (simp add: buildSchedule_def Let_def scheduleLoop_length)

lemma buildSchedule_years:
  "k < length (buildSchedule i a) \<Longrightarrow> year (buildSchedule i a ! k) = 1 + int k"
  using scheduleLoop_years unfolding buildSchedule_def Let_def by blast













subsection \<open>The loop of the engine with debt types\<close>

lemma scheduleLoopV_Nil: "n < y \<Longrightarrow> scheduleLoopV i n A ad ap ep y pb rv ox rb = []"
  by (simp add: scheduleLoopV.simps)

lemma scheduleLoopV_Cons:
  "y \<le> n \<Longrightarrow> scheduleLoopV i n A ad ap ep y pb rv ox rb =
     scheduleRowV i n A ad ap ep y pb rv ox rb #
     scheduleLoopV i n A ad ap ep (y + 1)
       (jmax (jsub pb (principal (scheduleRowV i n A ad ap ep y pb rv ox rb))) (Fin 0))
       (jmul rv (jadd (Fin 1) (revGrowthV i)))
       (jmul ox (jadd (Fin 1) (opexGrowthV i)))
       (reserveEnd (scheduleRowV i n A ad ap ep y pb rv ox rb))"
  by (subst scheduleLoopV.simps) simp

lemma scheduleLoopV_hd:
  "y \<le> n \<Longrightarrow> hd (scheduleLoopV i n A ad ap ep y pb rv ox rb) =
     scheduleRowV i n A ad ap ep y pb rv ox rb"
  by (simp add: scheduleLoopV_Cons)

lemma scheduleLoopV_empty_iff:
  "scheduleLoopV i n A ad ap ep y pb rv ox rb = [] \<longleftrightarrow> n < y"
  by (subst scheduleLoopV.simps) auto

lemma scheduleLoopV_length:
  "length (scheduleLoopV i n A ad ap ep y pb rv ox rb) = nat (n + 1 - y)"
proof (induction i n A ad ap ep y pb rv ox rb rule: scheduleLoopV.induct)
  case (1 i n A ad ap ep y pb rv ox rb)
  show ?case
  proof (cases "y \<le> n")
    case True
    then show ?thesis using 1 by (simp add: scheduleLoopV_Cons nat_add_distrib)
  next
    case False
    then show ?thesis by (simp add: scheduleLoopV_Nil)
  qed
qed

lemma scheduleRowV_dscr:
  "dscr (scheduleRowV i n A ad ap ep y pb rv ox rb) =
     (if jgt (debtService (scheduleRowV i n A ad ap ep y pb rv ox rb)) (Fin 0)
      then Some (jdiv (availForDS (scheduleRowV i n A ad ap ep y pb rv ox rb))
                      (debtService (scheduleRowV i n A ad ap ep y pb rv ox rb)))
      else None)"
  by (simp add: scheduleRowV_def Let_def)

lemma scheduleRowV_lookahead:
  assumes "y < n" "n \<le> termYearsV i" "A = max 0 (termYearsV i - graceYearsV i)"
  shows "reserveTarget (scheduleRowV i n A ad ap ep y pb rv ox rb) =
         debtService (scheduleRowV i n A ad ap ep (y + 1)
           (jmax (jsub pb (principal (scheduleRowV i n A ad ap ep y pb rv ox rb))) (Fin 0))
           rv' ox' rb')"
  using assms by (simp add: scheduleRowV_def Let_def)

lemma scheduleRowV_last_target:
  "reserveTarget (scheduleRowV i n A ad ap ep n pb rv ox rb) = Fin 0"
  by (simp add: scheduleRowV_def Let_def)

lemma scheduleLoopV_lookahead:
  assumes "n < y \<or> n \<le> termYearsV i" "A = max 0 (termYearsV i - graceYearsV i)"
  shows "successively (\<lambda>r r'. reserveTarget r = debtService r')
           (scheduleLoopV i n A ad ap ep y pb rv ox rb)"
  using assms
proof (induction i n A ad ap ep y pb rv ox rb rule: scheduleLoopV.induct)
  case (1 i n A ad ap ep y pb rv ox rb)
  show ?case
  proof (cases "y \<le> n")
    case False
    then show ?thesis by (simp add: scheduleLoopV_Nil)
  next
    case True
    with 1(2) have nT: "n \<le> termYearsV i" by simp
    then have "n < y + 1 \<or> n \<le> termYearsV i" by simp
    note IH = 1(1) [OF True this 1(3)]
    show ?thesis
    proof (cases "y + 1 \<le> n")
      case False
      then show ?thesis using True by (simp add: scheduleLoopV_Cons scheduleLoopV_Nil)
    next
      case yn: True
      then have "y < n" by simp
      from scheduleRowV_lookahead [OF this nT 1(3)] IH show ?thesis
        by (simp add: scheduleLoopV_Cons [OF True] successively_Cons scheduleLoopV_hd [OF yn])
    qed
  qed
qed

lemma scheduleLoopV_last:
  "y \<le> n \<Longrightarrow> reserveTarget (last (scheduleLoopV i n A ad ap ep y pb rv ox rb)) = Fin 0"
proof (induction i n A ad ap ep y pb rv ox rb rule: scheduleLoopV.induct)
  case (1 i n A ad ap ep y pb rv ox rb)
  show ?case
  proof (cases "y + 1 \<le> n")
    case True
    then show ?thesis
      using 1 by (simp add: scheduleLoopV_Cons [OF 1(2)] scheduleLoopV_empty_iff)
  next
    case False
    with 1(2) have "y = n" by simp
    then show ?thesis
      by (simp add: scheduleLoopV_Cons scheduleLoopV_Nil scheduleRowV_last_target)
  qed
qed

lemma scheduleLoopV_years:
  "\<forall>k<length (scheduleLoopV i n A ad ap ep y pb rv ox rb).
     year (scheduleLoopV i n A ad ap ep y pb rv ox rb ! k) = y + int k"
proof (induction i n A ad ap ep y pb rv ox rb rule: scheduleLoopV.induct)
  case (1 i n A ad ap ep y pb rv ox rb)
  show ?case
  proof (cases "y \<le> n")
    case False
    then show ?thesis by (simp add: scheduleLoopV_Nil)
  next
    case True
    have "year (scheduleRowV i n A ad ap ep y pb rv ox rb) = y"
      by (simp add: scheduleRowV_def Let_def)
    then show ?thesis
      using 1 [OF True] by (auto simp: scheduleLoopV_Cons [OF True] nth_Cons split: nat.splits)
  qed
qed

text \<open>Under the bond debt type every row inside the term carries the same interest.\<close>

lemma scheduleRowV_bond:
  assumes "debtTypeV i = Bond" "y \<le> termYearsV i"
  shows "year (scheduleRowV i n A ad ap ep y pb rv ox rb) = y"
    and "interest (scheduleRowV i n A ad ap ep y pb rv ox rb) = jmul ad (rateV i)"
  using assms by (simp_all add: scheduleRowV_def Let_def)

lemma scheduleLoopV_bond:
  assumes "debtTypeV i = Bond" "n < y \<or> n \<le> termYearsV i"
  shows "\<forall>k<length (scheduleLoopV i n A ad ap ep y pb rv ox rb).
           year (scheduleLoopV i n A ad ap ep y pb rv ox rb ! k) = y + int k \<and>
           interest (scheduleLoopV i n A ad ap ep y pb rv ox rb ! k) = jmul ad (rateV i)"
  using assms
proof (induction i n A ad ap ep y pb rv ox rb rule: scheduleLoopV.induct)
  case (1 i n A ad ap ep y pb rv ox rb)
  show ?case
  proof (cases "y \<le> n")
    case False
    then show ?thesis by (simp add: scheduleLoopV_Nil)
  next
    case True
    with 1(3) have nT: "n \<le> termYearsV i" by simp
    then have "n < y + 1 \<or> n \<le> termYearsV i" by simp
    note IH = 1(1) [OF True 1(2) this]
    from True nT have "y \<le> termYearsV i" by simp
    note row = scheduleRowV_bond [OF 1(2) this]
    show ?thesis
      using IH row by (auto simp: scheduleLoopV_Cons [OF True] nth_Cons split: nat.splits)
  qed
qed

lemma buildScheduleV_length: "length (buildScheduleV i) = nat (termYearsV i)"
  by (simp add: buildScheduleV_def Let_def scheduleLoopV_length)

lemma buildScheduleV_years:
  "k < length (buildScheduleV i) \<Longrightarrow> year (buildScheduleV i ! k) = 1 + int k"
  using scheduleLoopV_years unfolding buildScheduleV_def Let_def by blast

lemma buildScheduleV_bond:
  assumes "debtTypeV i = Bond"
  shows "\<forall>k<length (buildScheduleV i).
    year (buildScheduleV i ! k) = 1 + int k \<and>
    interest (buildScheduleV i ! k) =
      jmul (jmin (finalDebtTakenV i) (allowedDebtV i)) (rateV i)"
  unfolding buildScheduleV_def Let_def
  by (rule scheduleLoopV_bond [OF assms]) auto

text \<open>
  Claim C2.  In the engine with debt types, when the debt type is bond the schedule has
  \<open>termYears\<close> rows, for the years 1 to \<open>termYears\<close>, and the interest of every row is
  the actual principal \<open>min(finalDebtTaken, allowedDebt)\<close> times the rate, the same in
  every year.  For a principal of 1,000,000,000,000, a rate of 0.08 and ten years the
  interest is 80,000,000,000 in each of the ten rows.
\<close>

theorem bond_interest_constant:
  assumes "debtTypeV i = Bond"
  shows "length (buildScheduleV i) = nat (termYearsV i) \<and>
         (\<forall>k<length (buildScheduleV i).
            year (buildScheduleV i ! k) = 1 + int k \<and>
            interest (buildScheduleV i ! k) =
              jmul (jmin (finalDebtTakenV i) (allowedDebtV i)) (rateV i)) \<and>
         (jmin (finalDebtTakenV i) (allowedDebtV i) = Fin 1000000000000 \<and>
          rateV i = Fin 0.08 \<and> termYearsV i = 10 \<longrightarrow>
            map interest (buildScheduleV i) = replicate 10 (Fin 80000000000))"
proof -
  note B = buildScheduleV_bond [OF assms]
  have "map interest (buildScheduleV i) = replicate 10 (Fin 80000000000)"
    if h: "jmin (finalDebtTakenV i) (allowedDebtV i) = Fin 1000000000000"
      "rateV i = Fin 0.08" "termYearsV i = 10"
  proof (rule nth_equalityI)
    show "length (map interest (buildScheduleV i)) = length (replicate 10 (Fin 80000000000))"
      by (simp add: buildScheduleV_length h(3))
  next
    fix k assume "k < length (map interest (buildScheduleV i))"
    then have k: "k < length (buildScheduleV i)" "k < 10"
      by (simp_all add: buildScheduleV_length h(3))
    with B have "interest (buildScheduleV i ! k) = jmul (Fin 1000000000000) (Fin 0.08)"
      using h by simp
    then show "map interest (buildScheduleV i) ! k = replicate 10 (Fin 80000000000) ! k"
      using k by simp
  qed
  then show ?thesis
    using B buildScheduleV_length by blast
qed

theorem bond_interest_constant_witness:
  "debtTypeV scenarioV = Bond \<and>
   jmin (finalDebtTakenV scenarioV) (allowedDebtV scenarioV) = Fin 1000000000000 \<and>
   rateV scenarioV = Fin 0.08 \<and> termYearsV scenarioV = 10 \<and>
   length (buildScheduleV scenarioV) = 10 \<and>
   map interest (buildScheduleV scenarioV) = replicate 10 (Fin 80000000000)"
proof -
  have 1: "debtTypeV scenarioV = Bond"
    "jmin (finalDebtTakenV scenarioV) (allowedDebtV scenarioV) = Fin 1000000000000"
    "rateV scenarioV = Fin 0.08" "termYearsV scenarioV = 10"
    by (simp_all add: scenarioV_def)
  note T = bond_interest_constant [OF 1(1)]
  from T 1 have 2: "map interest (buildScheduleV scenarioV) = replicate 10 (Fin 80000000000)"
    by blast
  from T 1(4) have 3: "length (buildScheduleV scenarioV) = 10"
    by simp
  from 1 2 3 show ?thesis
    by (intro conjI)
qed

subsection \<open>The reserve target looks one year ahead\<close>

text \<open>
  Claim C4.  In every schedule of \<open>buildSchedule\<close>, of either engine file, the rows are
  those of the years 1 to \<open>termYears\<close>, the reserve target of the row of a year
  \<open>y < termYears\<close> equals the debt service of the row of year \<open>y + 1\<close>, and the reserve
  target of the final row is 0.
\<close>

theorem reserveTarget_lookahead:
  "length (buildSchedule i a) = nat (termYears i) \<and>
   (\<forall>k. Suc k < length (buildSchedule i a) \<longrightarrow>
      year (buildSchedule i a ! k) = 1 + int k \<and>
      year (buildSchedule i a ! Suc k) = 1 + int k + 1 \<and>
      reserveTarget (buildSchedule i a ! k) = debtService (buildSchedule i a ! Suc k)) \<and>
   (buildSchedule i a \<noteq> [] \<longrightarrow> reserveTarget (last (buildSchedule i a)) = Fin 0) \<and>
   length (buildScheduleV j) = nat (termYearsV j) \<and>
   (\<forall>k. Suc k < length (buildScheduleV j) \<longrightarrow>
      year (buildScheduleV j ! k) = 1 + int k \<and>
      year (buildScheduleV j ! Suc k) = 1 + int k + 1 \<and>
      reserveTarget (buildScheduleV j ! k) = debtService (buildScheduleV j ! Suc k)) \<and>
   (buildScheduleV j \<noteq> [] \<longrightarrow> reserveTarget (last (buildScheduleV j)) = Fin 0)"
proof -
  have y: "year (buildSchedule i a ! k) = 1 + int k \<and>
           year (buildSchedule i a ! Suc k) = 1 + int k + 1"
    if "Suc k < length (buildSchedule i a)" for k
    using that buildSchedule_years [of k i a] buildSchedule_years [of "Suc k" i a] by simp
  have yV: "year (buildScheduleV j ! k) = 1 + int k \<and>
            year (buildScheduleV j ! Suc k) = 1 + int k + 1"
    if "Suc k < length (buildScheduleV j)" for k
    using that buildScheduleV_years [of k j] buildScheduleV_years [of "Suc k" j] by simp
  have "successively (\<lambda>r r'. reserveTarget r = debtService r') (buildSchedule i a)"
    unfolding buildSchedule_def Let_def by (rule scheduleLoop_lookahead) auto
  then have 1: "reserveTarget (buildSchedule i a ! k) = debtService (buildSchedule i a ! Suc k)"
    if "Suc k < length (buildSchedule i a)" for k
    using successively_nth that by blast
  have 2: "reserveTarget (last (buildSchedule i a)) = Fin 0" if "buildSchedule i a \<noteq> []"
    using that unfolding buildSchedule_def Let_def
    by (intro scheduleLoop_last) (simp add: scheduleLoop_empty_iff)
  have "successively (\<lambda>r r'. reserveTarget r = debtService r') (buildScheduleV j)"
    unfolding buildScheduleV_def Let_def by (rule scheduleLoopV_lookahead) auto
  then have 3: "reserveTarget (buildScheduleV j ! k) = debtService (buildScheduleV j ! Suc k)"
    if "Suc k < length (buildScheduleV j)" for k
    using successively_nth that by blast
  have 4: "reserveTarget (last (buildScheduleV j)) = Fin 0" if "buildScheduleV j \<noteq> []"
    using that unfolding buildScheduleV_def Let_def
    by (intro scheduleLoopV_last) (simp add: scheduleLoopV_empty_iff)
  show ?thesis
    using 1 2 3 4 y yV buildSchedule_length [of i a] buildScheduleV_length [of j] by blast
qed

theorem reserveTarget_lookahead_witness:
  "Suc 0 < length (buildSchedule scenario (Fin 100)) \<and>
   reserveTarget (buildSchedule scenario (Fin 100) ! 0) =
     debtService (buildSchedule scenario (Fin 100) ! Suc 0) \<and>
   buildSchedule scenario (Fin 100) \<noteq> [] \<and>
   reserveTarget (last (buildSchedule scenario (Fin 100))) = Fin 0 \<and>
   Suc 8 < length (buildScheduleV scenarioV) \<and>
   reserveTarget (buildScheduleV scenarioV ! 8) = debtService (buildScheduleV scenarioV ! Suc 8) \<and>
   buildScheduleV scenarioV \<noteq> [] \<and>
   reserveTarget (last (buildScheduleV scenarioV)) = Fin 0"
proof -
  have 1: "Suc 0 < length (buildSchedule scenario (Fin 100))"
    "Suc 8 < length (buildScheduleV scenarioV)"
    by (simp_all add: buildSchedule_length buildScheduleV_length scenario_def scenarioV_def)
  then have 2: "buildSchedule scenario (Fin 100) \<noteq> []" "buildScheduleV scenarioV \<noteq> []"
    by auto
  note T = reserveTarget_lookahead [of scenario "Fin 100" scenarioV]
  from T 1 have 3:
    "reserveTarget (buildSchedule scenario (Fin 100) ! 0) =
       debtService (buildSchedule scenario (Fin 100) ! Suc 0)"
    "reserveTarget (buildScheduleV scenarioV ! 8) = debtService (buildScheduleV scenarioV ! Suc 8)"
    by blast+
  from T 2 have 4: "reserveTarget (last (buildSchedule scenario (Fin 100))) = Fin 0"
    "reserveTarget (last (buildScheduleV scenarioV)) = Fin 0"
    by blast+
  from 1 2 3 4 show ?thesis
    by (intro conjI)
qed

section \<open>The minimum-DSCR reducer\<close>

lemma minDSCR_loop_Cons:
  "minDSCR_loop m (r # rs) =
     minDSCR_loop (if qualifies r then jmin m (the (dscr r)) else m) rs"
  by (auto simp: qualifies_def split: option.splits)

text \<open>
  A qualifying ratio that is \<open>NaN\<close> or \<open>-Infinity\<close> makes the running minimum \<open>NaN\<close> or
  \<open>-Infinity\<close>, and it stays so.
\<close>

lemma minDSCR_loop_absorb:
  "m = NaN \<or> m = NInf \<Longrightarrow> minDSCR_loop m rows = NaN \<or> minDSCR_loop m rows = NInf"
proof (induction rows arbitrary: m)
  case Nil
  then show ?case by simp
next
  case (Cons r rows)
  have "jmin m d = NaN \<or> jmin m d = NInf" for d
    using Cons.prems by (cases d) auto
  then show ?case using Cons by (auto split: option.splits)
qed

lemma minDSCR_loop_not_finite:
  assumes "\<exists>r\<in>set rows. qualifies r \<and> (dscr r = Some NaN \<or> dscr r = Some NInf)"
  shows "minDSCR_loop m rows = NaN \<or> minDSCR_loop m rows = NInf"
  using assms
proof (induction rows arbitrary: m)
  case Nil
  then show ?case by simp
next
  case (Cons r rows)
  show ?case
  proof (cases "qualifies r \<and> (dscr r = Some NaN \<or> dscr r = Some NInf)")
    case True
    then obtain d where d: "dscr r = Some d" "d = NaN \<or> d = NInf" by auto
    then have "jmin m d = NaN \<or> jmin m d = NInf" by (cases m) auto
    moreover have "minDSCR_loop m (r # rows) = minDSCR_loop (jmin m d) rows"
      using True d by (simp only: minDSCR_loop_Cons if_True option.sel)
    ultimately show ?thesis
      using minDSCR_loop_absorb [of "jmin m d" rows] by simp
  next
    case False
    then have "\<exists>r\<in>set rows. qualifies r \<and> (dscr r = Some NaN \<or> dscr r = Some NInf)"
      using Cons.prems by auto
    from Cons.IH [OF this] show ?thesis by (simp only: minDSCR_loop.simps)
  qed
qed

lemma minDSCR_loop_all_infinite:
  assumes "\<forall>r\<in>set rows. \<forall>d. qualifies r \<and> dscr r = Some d \<longrightarrow> d = PInf"
  shows "minDSCR_loop PInf rows = PInf"
  using assms
proof (induction rows)
  case Nil
  then show ?case by simp
next
  case (Cons r rows)
  have "(if qualifies r then jmin PInf (the (dscr r)) else PInf) = PInf"
    using Cons.prems by (auto simp: qualifies_def)
  then have "minDSCR_loop PInf (r # rows) = minDSCR_loop PInf rows"
    by (simp only: minDSCR_loop_Cons)
  then show ?case using Cons by simp
qed

text \<open>
  The loop from an accumulator that is a finite number or \<open>+Infinity\<close>, over rows whose
  qualifying ratios are finite numbers or \<open>+Infinity\<close>: the result is below the
  accumulator and below every qualifying ratio, it is the accumulator or one of the
  qualifying ratios, and it is finite as soon as the accumulator or a qualifying ratio is.
\<close>

lemma minDSCR_loop_min:
  assumes "\<forall>r\<in>set rows. \<forall>d. qualifies r \<and> dscr r = Some d \<longrightarrow> d \<noteq> NaN \<and> d \<noteq> NInf"
    "m \<noteq> NaN" "m \<noteq> NInf"
  shows "minDSCR_loop m rows \<noteq> NaN \<and> minDSCR_loop m rows \<noteq> NInf \<and>
         jle (minDSCR_loop m rows) m \<and>
         (minDSCR_loop m rows = m \<or>
            (\<exists>r\<in>set rows. qualifies r \<and> dscr r = Some (minDSCR_loop m rows))) \<and>
         (\<forall>r\<in>set rows. \<forall>d. qualifies r \<and> dscr r = Some d \<longrightarrow> jle (minDSCR_loop m rows) d) \<and>
         (isFinite m \<or> (\<exists>r\<in>set rows. \<exists>x. qualifies r \<and> dscr r = Some (Fin x)) \<longrightarrow>
            isFinite (minDSCR_loop m rows))"
  using assms
proof (induction rows arbitrary: m)
  case Nil
  then show ?case by (simp add: jle_refl)
next
  case (Cons r rows)
  have good: "\<forall>r\<in>set rows. \<forall>d. qualifies r \<and> dscr r = Some d \<longrightarrow> d \<noteq> NaN \<and> d \<noteq> NInf"
    using Cons.prems(1) by simp
  show ?case
  proof (cases "qualifies r")
    case False
    then have "minDSCR_loop m (r # rows) = minDSCR_loop m rows"
      by (simp only: minDSCR_loop_Cons if_False)
    then show ?thesis
      using Cons.IH [OF good Cons.prems(2,3)] False by auto
  next
    case True
    then obtain d where d: "dscr r = Some d"
      by (auto simp: qualifies_def)
    with True Cons.prems(1) have dg: "d \<noteq> NaN" "d \<noteq> NInf" by auto
    define m' where "m' = jmin m d"
    note J = jmin_good [OF Cons.prems(2,3) dg, folded m'_def]
    have step: "minDSCR_loop m (r # rows) = minDSCR_loop m' rows"
      using True d by (simp only: minDSCR_loop_Cons m'_def if_True option.sel)
    from J have ne: "m' \<noteq> NaN" "m' \<noteq> NInf" by simp_all
    note IH = Cons.IH [OF good ne]
    have 1: "jle (minDSCR_loop m' rows) m"
      using IH J jle_trans by blast
    have 2: "jle (minDSCR_loop m' rows) d"
      using IH J jle_trans by blast
    have 3: "minDSCR_loop m' rows = m \<or>
       (\<exists>r'\<in>set (r # rows). qualifies r' \<and> dscr r' = Some (minDSCR_loop m' rows))"
      using IH J True d by auto
    have 4: "isFinite (minDSCR_loop m' rows)"
      if "isFinite m \<or> (\<exists>r'\<in>set (r # rows). \<exists>x. qualifies r' \<and> dscr r' = Some (Fin x))"
    proof -
      from that consider "isFinite m" | "\<exists>x. d = Fin x"
        | "\<exists>r'\<in>set rows. \<exists>x. qualifies r' \<and> dscr r' = Some (Fin x)"
        using d by auto
      then show ?thesis
      proof cases
        case 1
        then show ?thesis using IH J by blast
      next
        case 2
        then have "isFinite d" by auto
        then show ?thesis using IH J by blast
      next
        case 3
        then show ?thesis using IH by blast
      qed
    qed
    show ?thesis
      unfolding step using 1 2 3 4 IH d by auto
  qed
qed

text \<open>
  Claim C6, as the code has it.  For every row sequence, over exactly the rows with
  \<open>debtService > 0\<close> and a non-null ratio: when one of these ratios is a finite number
  and none is \<open>NaN\<close> or \<open>-Infinity\<close>, the reducer returns their minimum (the ratio of
  such a row, a finite number, not above the ratio of any such row); when one of them is
  \<open>NaN\<close> or \<open>-Infinity\<close> it returns 0; and when all of them are \<open>+Infinity\<close>, so also
  when no row qualifies, it returns 0.
\<close>

theorem minDSCR_rows_minimum:
  "((\<exists>r\<in>set rows. \<exists>x. qualifies r \<and> dscr r = Some (Fin x)) \<and>
    (\<forall>r\<in>set rows. \<forall>d. qualifies r \<and> dscr r = Some d \<longrightarrow> d \<noteq> NaN \<and> d \<noteq> NInf) \<longrightarrow>
      isFinite (minDSCR_rows rows) \<and>
      (\<exists>r\<in>set rows. qualifies r \<and> dscr r = Some (minDSCR_rows rows)) \<and>
      (\<forall>r\<in>set rows. \<forall>d. qualifies r \<and> dscr r = Some d \<longrightarrow> jle (minDSCR_rows rows) d)) \<and>
   ((\<exists>r\<in>set rows. qualifies r \<and> (dscr r = Some NaN \<or> dscr r = Some NInf)) \<longrightarrow>
      minDSCR_rows rows = Fin 0) \<and>
   ((\<forall>r\<in>set rows. \<forall>d. qualifies r \<and> dscr r = Some d \<longrightarrow> d = PInf) \<longrightarrow>
      minDSCR_rows rows = Fin 0)"
proof (intro conjI impI)
  assume a: "(\<exists>r\<in>set rows. \<exists>x. qualifies r \<and> dscr r = Some (Fin x)) \<and>
    (\<forall>r\<in>set rows. \<forall>d. qualifies r \<and> dscr r = Some d \<longrightarrow> d \<noteq> NaN \<and> d \<noteq> NInf)"
  then have g: "\<forall>r\<in>set rows. \<forall>d. qualifies r \<and> dscr r = Some d \<longrightarrow> d \<noteq> NaN \<and> d \<noteq> NInf"
    by blast
  note L = minDSCR_loop_min [OF g, of PInf, simplified]
  from a L have fin: "isFinite (minDSCR_loop PInf rows)" by blast
  then have eq: "minDSCR_rows rows = minDSCR_loop PInf rows"
    by (simp add: minDSCR_rows_def)
  have "minDSCR_loop PInf rows \<noteq> PInf" using fin by auto
  with L show "isFinite (minDSCR_rows rows)"
    "\<exists>r\<in>set rows. qualifies r \<and> dscr r = Some (minDSCR_rows rows)"
    "\<forall>r\<in>set rows. \<forall>d. qualifies r \<and> dscr r = Some d \<longrightarrow> jle (minDSCR_rows rows) d"
    unfolding eq using fin by blast+
next
  assume "\<exists>r\<in>set rows. qualifies r \<and> (dscr r = Some NaN \<or> dscr r = Some NInf)"
  from minDSCR_loop_not_finite [OF this, of PInf] show "minDSCR_rows rows = Fin 0"
    by (auto simp: minDSCR_rows_def)
next
  assume "\<forall>r\<in>set rows. \<forall>d. qualifies r \<and> dscr r = Some d \<longrightarrow> d = PInf"
  from minDSCR_loop_all_infinite [OF this] show "minDSCR_rows rows = Fin 0"
    by (simp add: minDSCR_rows_def)
qed

theorem minDSCR_rows_minimum_witness:
  "qualifies (threeRows ! 0) \<and> dscr (threeRows ! 0) = Some (Fin 3) \<and>
   \<not> qualifies (threeRows ! 1) \<and>
   qualifies (threeRows ! 2) \<and> dscr (threeRows ! 2) = Some (Fin 2) \<and>
   minDSCR_rows threeRows = Fin 2 \<and> jle (minDSCR_rows threeRows) (Fin 3) \<and>
   qualifies nanRow \<and> dscr nanRow = Some NaN \<and> minDSCR_rows [nanRow] = Fin 0 \<and>
   \<not> qualifies zeroRow \<and> minDSCR_rows [zeroRow] = Fin 0"
proof -
  have q: "qualifies (threeRows ! 0)" "dscr (threeRows ! 0) = Some (Fin 3)"
    "\<not> qualifies (threeRows ! 1)" "qualifies (threeRows ! 2)"
    "dscr (threeRows ! 2) = Some (Fin 2)" "\<not> qualifies zeroRow"
    "qualifies nanRow" "dscr nanRow = Some NaN"
    by (simp_all add: threeRows_def zeroRow_def nanRow_def qualifies_def jgt_def)
  have f: "\<exists>r\<in>set threeRows. \<exists>x. qualifies r \<and> dscr r = Some (Fin x)"
    "\<forall>r\<in>set threeRows. \<forall>d. qualifies r \<and> dscr r = Some d \<longrightarrow> d \<noteq> NaN \<and> d \<noteq> NInf"
    by (simp_all add: threeRows_def zeroRow_def qualifies_def jgt_def)
  have v: "minDSCR_rows threeRows = Fin 2"
    by (simp add: minDSCR_rows_def threeRows_def zeroRow_def jgt_def)
  have m: "threeRows ! 0 \<in> set threeRows"
    by (simp add: threeRows_def)
  note T = minDSCR_rows_minimum
  from T [of threeRows] f
  have "\<forall>r\<in>set threeRows. \<forall>d. qualifies r \<and> dscr r = Some d \<longrightarrow> jle (minDSCR_rows threeRows) d"
    by blast
  with m q(1,2) have 1: "jle (minDSCR_rows threeRows) (Fin 3)"
    by blast
  have "\<exists>r\<in>set [nanRow]. qualifies r \<and> (dscr r = Some NaN \<or> dscr r = Some NInf)"
    using q(7,8) by simp
  with T [of "[nanRow]"] have 2: "minDSCR_rows [nanRow] = Fin 0"
    by blast
  have "\<forall>r\<in>set [zeroRow]. \<forall>d. qualifies r \<and> dscr r = Some d \<longrightarrow> d = PInf"
    using q(6) by simp
  with T [of "[zeroRow]"] have 3: "minDSCR_rows [zeroRow] = Fin 0"
    by blast
  from q v 1 2 3 show ?thesis
    by (intro conjI)
qed

text \<open>
  A single qualifying row with the ratio \<open>+Infinity\<close>, and one with \<open>-Infinity\<close>: the
  minimum of the ratios over the qualifying rows is that ratio, the reducer returns 0.
\<close>

theorem minDSCR_rows_minimum_counterexample:
  "qualifies infiniteRow \<and> dscr infiniteRow = Some PInf \<and>
   minDSCR_rows [infiniteRow] = Fin 0 \<and>
   qualifies negInfiniteRow \<and> dscr negInfiniteRow = Some NInf \<and>
   minDSCR_rows [negInfiniteRow] = Fin 0"
  by (simp add: infiniteRow_def negInfiniteRow_def zeroRow_def qualifies_def jgt_def
      minDSCR_rows_def)

end
